theory Spec2Isabelle
  imports Complex_Main
begin

section \<open>Numbers and errors\<close>

text \<open>
  The scripts \<^verbatim>\<open>scripts/osm/build_buildings.py\<close> and \<^verbatim>\<open>scripts/osm/build_roads.py\<close>
  compute with Python floats. Geometry is modelled here over the real numbers, with
  exact arithmetic. Where a result depends on a float being exactly zero or on its sign
  (the parsing of a tag value, the projection of a point onto the origin), the rounding
  of IEEE doubles is made explicit by \<open>rnd\<close> below. What Python raises is a value of
  \<open>py_error\<close>.
\<close>

datatype py_error = ZeroDivisionError | IndexError

definition EARTH_RADIUS :: real where
  "EARTH_RADIUS = 6378137"

definition METERS_TO_FEET :: real where
  "METERS_TO_FEET = 3.28084"

text \<open>\<^verbatim>\<open>int(x)\<close> on a float truncates towards zero.\<close>

definition py_int :: "real \<Rightarrow> int" where
  "py_int x = (if 0 \<le> x then \<lfloor>x\<rfloor> else \<lceil>x\<rceil>)"

text \<open>\<^verbatim>\<open>math.radians\<close>.\<close>

definition radians :: "real \<Rightarrow> real" where
  "radians d = d * pi / 180"

section \<open>IEEE doubles\<close>

text \<open>
  A finite double is a real number; every finite double is an integer multiple of the
  least positive one, \<open>min_subnormal\<close> (Python's \<^verbatim>\<open>5e-324\<close>). \<open>rnd\<close> rounds a real number
  to the nearest double, ties to the even significand, as every float operation of
  Python does with its exact result: 53 bits of significand in the binade of the number,
  and multiples of \<open>min_subnormal\<close> below \<open>2 powi (- 1022)\<close>. Overflow is left to the
  caller: \<open>rnd\<close> of a number beyond the largest double is a number of magnitude at least
  \<open>2 ^ 1024\<close>.
\<close>

definition round_even :: "real \<Rightarrow> int" where
  "round_even y =
     (let f = \<lfloor>y\<rfloor>; d = y - of_int f
      in if d < 1 / 2 then f else if 1 / 2 < d then f + 1 else if even f then f else f + 1)"

definition binade :: "real \<Rightarrow> int" where
  "binade x = max \<lfloor>log 2 \<bar>x\<bar>\<rfloor> (- 1022)"

definition ulp :: "real \<Rightarrow> real" where
  "ulp x = 2 powi (binade x - 52)"

definition min_subnormal :: real where
  "min_subnormal = 1 / 2 ^ 1074"

definition rnd :: "real \<Rightarrow> real" where
  "rnd x = (if x = 0 then 0 else of_int (round_even (x / ulp x)) * ulp x)"

definition is_double :: "real \<Rightarrow> bool" where
  "is_double x = (\<exists>n :: int. x = of_int n * min_subnormal)"

section \<open>HeightmapSampler\<close>

text \<open>
  The class is the same in both scripts. \<open>grid\<close> is \<open>None\<close> when the files are
  missing; otherwise it is the array read from the binary file, reshaped to
  \<open>height\<close> rows of \<open>width\<close> samples (the reshape fails at load time for any other
  size, which is what \<open>grid_shape\<close> records).
\<close>

record HeightmapSampler =
  origin_lat :: real
  origin_lon :: real
  pixel_size :: real
  width :: int
  height :: int
  grid :: "real list list option"

definition grid_shape :: "HeightmapSampler \<Rightarrow> bool" where
  "grid_shape s = (case grid s of None \<Rightarrow> True
     | Some g \<Rightarrow> int (length g) = height s \<and> list_all (\<lambda>r. int (length r) = width s) g)"

text \<open>\<^verbatim>\<open>self.grid[r, c]\<close> for indices that are not negative.\<close>

definition grid_at :: "real list list \<Rightarrow> int \<Rightarrow> int \<Rightarrow> py_error + real" where
  "grid_at g r c =
     (if 0 \<le> r \<and> r < int (length g) \<and> 0 \<le> c \<and> c < int (length (g ! nat r))
      then Inr (g ! nat r ! nat c) else Inl IndexError)"

definition bilinear :: "real \<Rightarrow> real \<Rightarrow> real \<Rightarrow> real \<Rightarrow> real \<Rightarrow> real \<Rightarrow> real" where
  "bilinear v00 v01 v10 v11 dc dr =
     (let v0 = v00 * (1 - dc) + v01 * dc;
          v1 = v10 * (1 - dc) + v11 * dc
      in v0 * (1 - dr) + v1 * dr)"

definition sample :: "HeightmapSampler \<Rightarrow> real \<Rightarrow> real \<Rightarrow> py_error + real option" where
  "sample s la lo =
     (case grid s of
        None \<Rightarrow> Inr None
      | Some g \<Rightarrow>
          if pixel_size s = 0 then Inl ZeroDivisionError
          else
            let col = (lo - origin_lon s) / pixel_size s;
                row = (origin_lat s - la) / pixel_size s
            in if col < 0 \<or> col \<ge> of_int (width s - 1) \<or> row < 0 \<or> row \<ge> of_int (height s - 1)
               then Inr None
               else
                 let c0 = py_int col; c1 = py_int col + 1;
                     r0 = py_int row; r1 = py_int row + 1;
                     dc = col - of_int c0; dr = row - of_int r0
                 in case grid_at g r0 c0 of Inl e \<Rightarrow> Inl e | Inr v00 \<Rightarrow>
                    (case grid_at g r0 c1 of Inl e \<Rightarrow> Inl e | Inr v01 \<Rightarrow>
                    (case grid_at g r1 c0 of Inl e \<Rightarrow> Inl e | Inr v10 \<Rightarrow>
                    (case grid_at g r1 c1 of Inl e \<Rightarrow> Inl e | Inr v11 \<Rightarrow>
                       Inr (Some (bilinear v00 v01 v10 v11 dc dr * METERS_TO_FEET))))))"

text \<open>The fractional column and row that \<open>sample\<close> computes.\<close>

definition frac_col :: "HeightmapSampler \<Rightarrow> real \<Rightarrow> real" where
  "frac_col s lo = (lo - origin_lon s) / pixel_size s"

definition frac_row :: "HeightmapSampler \<Rightarrow> real \<Rightarrow> real" where
  "frac_row s la = (origin_lat s - la) / pixel_size s"

section \<open>latlon_to_local\<close>

definition latlon_to_local :: "real \<Rightarrow> real \<Rightarrow> real \<Rightarrow> real \<Rightarrow> real \<times> real" where
  "latlon_to_local la lo olat olon =
     (let origin_lat_rad = radians olat;
          meters_per_deg_lat = (pi / 180) * EARTH_RADIUS;
          meters_per_deg_lon = (pi / 180) * EARTH_RADIUS * cos origin_lat_rad;
          dx_meters = (lo - olon) * meters_per_deg_lon;
          dz_meters = (la - olat) * meters_per_deg_lat
      in (dx_meters * METERS_TO_FEET, dz_meters * METERS_TO_FEET))"

text \<open>
  The same function with the rounding of every float operation written out. \<^verbatim>\<open>math.pi\<close>
  and the literal \<^verbatim>\<open>3.28084\<close> are the doubles nearest to their values; \<^verbatim>\<open>math.cos\<close>
  belongs to the C library, so the double it returns for \<^verbatim>\<open>origin_lat_rad\<close> is the
  parameter \<open>cos_origin\<close>. Overflow to an infinity is not modelled: an overflowed
  coordinate is not zero in Python, and not zero here.
\<close>

definition pi_double :: real where
  "pi_double = rnd pi"

definition METERS_TO_FEET_double :: real where
  "METERS_TO_FEET_double = rnd 3.28084"

definition meters_per_deg_lat_double :: real where
  "meters_per_deg_lat_double = rnd (rnd (pi_double / 180) * EARTH_RADIUS)"

definition meters_per_deg_lon_double :: "real \<Rightarrow> real" where
  "meters_per_deg_lon_double cos_origin = rnd (meters_per_deg_lat_double * cos_origin)"

definition latlon_to_local_double :: "real \<Rightarrow> real \<Rightarrow> real \<Rightarrow> real \<Rightarrow> real \<Rightarrow> real \<times> real" where
  "latlon_to_local_double cos_origin la lo olat olon =
     (let dx_meters = rnd (rnd (lo - olon) * meters_per_deg_lon_double cos_origin);
          dz_meters = rnd (rnd (la - olat) * meters_per_deg_lat_double)
      in (rnd (dx_meters * METERS_TO_FEET_double), rnd (dz_meters * METERS_TO_FEET_double)))"

text \<open>A 2 by 2 and a 3 by 3 grid used to run the sampler on concrete input.\<close>

definition grid2 :: HeightmapSampler where
  "grid2 = \<lparr>origin_lat = 0, origin_lon = 0, pixel_size = 1, width = 2, height = 2,
            grid = Some [[1, 2], [3, 4]]\<rparr>"

definition grid3 :: HeightmapSampler where
  "grid3 = \<lparr>origin_lat = 0, origin_lon = 0, pixel_size = 1, width = 3, height = 3,
            grid = Some [[1, 2, 3], [4, 5, 6], [7, 8, 9]]\<rparr>"

section \<open>Tag values as numbers\<close>

text \<open>
  \<^verbatim>\<open>float(s)\<close> and \<^verbatim>\<open>int(s)\<close> on a string either give a number or raise
  \<^verbatim>\<open>ValueError\<close>, which both resolvers catch; the parsers below return \<open>None\<close> for it.
  A parsed float is a finite double, an infinity or a NaN.
  A character of a tag string is a code point below 256. Python also accepts decimal
  digits and spaces beyond that range, and from version 3.11 refuses integers of more
  than 4300 digits; neither is modelled.
\<close>

datatype pyfloat = Finite real | PosInf | NegInf | NaN

fun fmul :: "pyfloat \<Rightarrow> real \<Rightarrow> pyfloat" where
  "fmul (Finite x) c = Finite (x * c)"
| "fmul PosInf c = (if 0 < c then PosInf else if c < 0 then NegInf else NaN)"
| "fmul NegInf c = (if 0 < c then NegInf else if c < 0 then PosInf else NaN)"
| "fmul NaN c = NaN"


text \<open>
  The double that \<^verbatim>\<open>float\<close> makes of the exact value of a decimal string: the nearest
  double, zero when the value underflows and an infinity when it overflows.
\<close>

definition to_double :: "real \<Rightarrow> pyfloat" where
  "to_double v =
     (let r = rnd v
      in if 2 ^ 1024 \<le> \<bar>r\<bar> then (if r < 0 then NegInf else PosInf) else Finite r)"

text \<open>\<^verbatim>\<open>str.strip()\<close> removes the characters for which \<^verbatim>\<open>isspace()\<close> holds.\<close>

definition is_space :: "char \<Rightarrow> bool" where
  "is_space c = (c \<in> set [CHR 0x09, CHR 0x0A, CHR 0x0B, CHR 0x0C, CHR 0x0D,
                          CHR 0x1C, CHR 0x1D, CHR 0x1E, CHR 0x1F, CHR '' '',
                          CHR 0x85, CHR 0xA0])"

definition strip :: "string \<Rightarrow> string" where
  "strip s = rev (dropWhile is_space (rev (dropWhile is_space s)))"

text \<open>\<^verbatim>\<open>s.replace(c, "")\<close> for a single character \<open>c\<close>.\<close>

definition str_remove :: "char \<Rightarrow> string \<Rightarrow> string" where
  "str_remove c s = filter (\<lambda>x. x \<noteq> c) s"

definition digit_val :: "char \<Rightarrow> nat option" where
  "digit_val c = map_of [(CHR ''0'', 0), (CHR ''1'', 1), (CHR ''2'', 2), (CHR ''3'', 3),
     (CHR ''4'', 4), (CHR ''5'', 5), (CHR ''6'', 6), (CHR ''7'', 7), (CHR ''8'', 8),
     (CHR ''9'', 9)] c"

definition lower :: "char \<Rightarrow> char" where
  "lower c = (case map_of (zip ''ABCDEFGHIJKLMNOPQRSTUVWXYZ'' ''abcdefghijklmnopqrstuvwxyz'') c of
     Some l \<Rightarrow> l | None \<Rightarrow> c)"

text \<open>
  The longest prefix \<open>digit (["_"] digit)*\<close> of the input, continuing from \<open>k\<close> digits of
  value \<open>v\<close> read so far: the value, the number of digits, and the rest of the input.
\<close>

fun digits_rest :: "nat \<Rightarrow> nat \<Rightarrow> string \<Rightarrow> nat \<times> nat \<times> string" where
  "digits_rest v k [] = (v, k, [])"
| "digits_rest v k [c] =
     (case digit_val c of Some x \<Rightarrow> (10 * v + x, k + 1, []) | None \<Rightarrow> (v, k, [c]))"
| "digits_rest v k (c # d # cs) =
     (case digit_val c of
        Some x \<Rightarrow> digits_rest (10 * v + x) (k + 1) (d # cs)
      | None \<Rightarrow>
          if c = CHR ''_'' \<and> 0 < k \<and> digit_val d \<noteq> None then digits_rest v k (d # cs)
          else (v, k, c # d # cs))"

definition split_sign :: "string \<Rightarrow> bool \<times> string" where
  "split_sign s = (case s of [] \<Rightarrow> (False, [])
     | c # r \<Rightarrow> if c = CHR ''-'' then (True, r) else if c = CHR ''+'' then (False, r)
                else (False, s))"

definition parse_exponent :: "real \<Rightarrow> string \<Rightarrow> real option" where
  "parse_exponent m s =
     (case s of [] \<Rightarrow> Some m
      | c # t \<Rightarrow>
          if c = CHR ''e'' \<or> c = CHR ''E'' then
            (case split_sign t of (neg, t') \<Rightarrow>
              (case digits_rest 0 0 t' of (n, k, r) \<Rightarrow>
                 if 0 < k \<and> r = [] then Some (if neg then m / 10 ^ n else m * 10 ^ n)
                 else None))
          else None)"

text \<open>
  \<open>[digitpart] "." digitpart | digitpart ["."]\<close> followed by an optional exponent, as in
  the grammar of \<^verbatim>\<open>float\<close>; the whole string has to match.
\<close>

definition parse_number :: "string \<Rightarrow> real option" where
  "parse_number s =
     (case digits_rest 0 0 s of (n1, k1, r1) \<Rightarrow>
        (case r1 of
           [] \<Rightarrow> if 0 < k1 then Some (of_nat n1) else None
         | c # t \<Rightarrow>
             if c = CHR ''.'' then
               (case digits_rest 0 0 t of (n2, k2, r2) \<Rightarrow>
                  if 0 < k1 \<or> 0 < k2
                  then parse_exponent (of_nat n1 + of_nat n2 / 10 ^ k2) r2 else None)
             else if 0 < k1 then parse_exponent (of_nat n1) r1 else None))"

definition py_float :: "string \<Rightarrow> pyfloat option" where
  "py_float s =
     (case split_sign (strip s) of (neg, u) \<Rightarrow>
        if map lower u = ''inf'' \<or> map lower u = ''infinity''
        then Some (if neg then NegInf else PosInf)
        else if map lower u = ''nan'' then Some NaN
        else map_option (\<lambda>x. to_double (if neg then - x else x)) (parse_number u))"

definition py_int_str :: "string \<Rightarrow> int option" where
  "py_int_str s =
     (case split_sign (strip s) of (neg, u) \<Rightarrow>
        (case digits_rest 0 0 u of (n, k, r) \<Rightarrow>
           if 0 < k \<and> r = [] then Some (if neg then - int n else int n) else None))"

section \<open>get_building_height and get_road_width\<close>

definition DEFAULT_HEIGHTS :: "(string \<times> int) list" where
  "DEFAULT_HEIGHTS =
     [(''house'', 25), (''residential'', 30), (''apartments'', 45), (''commercial'', 35),
      (''retail'', 20), (''industrial'', 40), (''warehouse'', 30), (''garage'', 12),
      (''shed'', 10), (''barn'', 35), (''church'', 50), (''school'', 35),
      (''hospital'', 60), (''yes'', 25)]"

definition DEFAULT_HEIGHT :: int where
  "DEFAULT_HEIGHT = 25"

definition ROAD_WIDTHS :: "(string \<times> int) list" where
  "ROAD_WIDTHS =
     [(''motorway'', 48), (''motorway_link'', 24), (''trunk'', 40), (''trunk_link'', 20),
      (''primary'', 36), (''primary_link'', 18), (''secondary'', 30),
      (''secondary_link'', 15), (''tertiary'', 24), (''tertiary_link'', 12),
      (''residential'', 20), (''unclassified'', 18), (''service'', 12),
      (''living_street'', 16), (''pedestrian'', 10), (''footway'', 6), (''path'', 4),
      (''cycleway'', 8), (''bridleway'', 8), (''steps'', 6), (''track'', 10),
      (''road'', 20)]"

definition DEFAULT_ROAD_WIDTH :: int where
  "DEFAULT_ROAD_WIDTH = 16"

text \<open>\<^verbatim>\<open>d.get(key, default)\<close>.\<close>

definition dict_get :: "('k \<rightharpoonup> 'v) \<Rightarrow> 'k \<Rightarrow> 'v \<Rightarrow> 'v" where
  "dict_get d k dflt = (case d k of Some v \<Rightarrow> v | None \<Rightarrow> dflt)"

text \<open>
  The first \<^verbatim>\<open>try\<close> block of either resolver: the explicit dimension tag with every
  \<open>m\<close> and every apostrophe removed, stripped and parsed as a float. \<open>None\<close> when the tag
  is absent or does not parse.
\<close>

definition dimension_tag :: "string \<Rightarrow> (string \<rightharpoonup> string) \<Rightarrow> pyfloat option" where
  "dimension_tag key tags =
     (case tags key of None \<Rightarrow> None
      | Some h \<Rightarrow> py_float (strip (str_remove (CHR 0x27) (str_remove (CHR ''m'') h))))"

text \<open>The second \<^verbatim>\<open>try\<close> block: the count tag parsed as an integer.\<close>

definition count_tag :: "string \<Rightarrow> (string \<rightharpoonup> string) \<Rightarrow> int option" where
  "count_tag key tags = (case tags key of None \<Rightarrow> None | Some l \<Rightarrow> py_int_str l)"

definition get_building_height :: "(string \<rightharpoonup> string) \<Rightarrow> pyfloat" where
  "get_building_height tags =
     (case dimension_tag ''height'' tags of
        Some h \<Rightarrow> fmul h METERS_TO_FEET
      | None \<Rightarrow>
          (case count_tag ''building:levels'' tags of
             Some levels \<Rightarrow> Finite (of_int (levels * 10))
           | None \<Rightarrow>
               let building_type = dict_get tags ''building'' ''yes''
               in Finite (of_int (dict_get (map_of DEFAULT_HEIGHTS) building_type DEFAULT_HEIGHT))))"

definition get_road_width :: "(string \<rightharpoonup> string) \<Rightarrow> pyfloat" where
  "get_road_width tags =
     (case dimension_tag ''width'' tags of
        Some w \<Rightarrow> fmul w METERS_TO_FEET
      | None \<Rightarrow>
          (case count_tag ''lanes'' tags of
             Some lanes \<Rightarrow> Finite (of_int (lanes * 10))
           | None \<Rightarrow>
               let highway_type = dict_get tags ''highway'' ''road''
               in Finite (of_int (dict_get (map_of ROAD_WIDTHS) highway_type DEFAULT_ROAD_WIDTH))))"

section \<open>road_to_mesh\<close>

text \<open>
  Points are numpy arrays of three floats. A division by a zero norm gives NaN in numpy
  (a warning, not an exception); a vector with NaN coordinates is \<open>None\<close> below, both for
  directions and for the vertices computed from them.
\<close>

type_synonym vec3 = "real \<times> real \<times> real"

record node =
  lat :: real
  lon :: real

record 'v mesh =
  vertices :: "'v list"
  faces :: "(nat \<times> nat \<times> nat) list"

definition ROAD_SURFACE_OFFSET :: real where
  "ROAD_SURFACE_OFFSET = 0.1"

fun vadd :: "vec3 \<Rightarrow> vec3 \<Rightarrow> vec3" where
  "vadd (a, b, c) (x, y, z) = (a + x, b + y, c + z)"

fun vsub :: "vec3 \<Rightarrow> vec3 \<Rightarrow> vec3" where
  "vsub (a, b, c) (x, y, z) = (a - x, b - y, c - z)"

fun vscale :: "vec3 \<Rightarrow> real \<Rightarrow> vec3" where
  "vscale (x, y, z) k = (x * k, y * k, z * k)"

fun vdiv :: "vec3 \<Rightarrow> real \<Rightarrow> vec3" where
  "vdiv (x, y, z) k = (x / k, y / k, z / k)"

text \<open>\<^verbatim>\<open>np.linalg.norm\<close>.\<close>

fun norm3 :: "vec3 \<Rightarrow> real" where
  "norm3 (x, y, z) = sqrt (x\<^sup>2 + y\<^sup>2 + z\<^sup>2)"

text \<open>One pass of the first loop: the projected node with its elevation.\<close>

definition point_3d :: "HeightmapSampler option \<Rightarrow> real \<Rightarrow> real \<Rightarrow> real \<Rightarrow> node \<Rightarrow> py_error + vec3" where
  "point_3d heightmap default_elevation olat olon n =
     (case latlon_to_local (lat n) (lon n) olat olon of (x, z) \<Rightarrow>
        (case (case heightmap of
                 None \<Rightarrow> Inr default_elevation
               | Some hm \<Rightarrow>
                   (case sample hm (lat n) (lon n) of
                      Inl e \<Rightarrow> Inl e
                    | Inr None \<Rightarrow> Inr default_elevation
                    | Inr (Some sampled) \<Rightarrow> Inr sampled)) of
           Inl e \<Rightarrow> Inl e
         | Inr y \<Rightarrow> Inr (x, y + ROAD_SURFACE_OFFSET, z)))"

fun points_3d :: "HeightmapSampler option \<Rightarrow> real \<Rightarrow> real \<Rightarrow> real \<Rightarrow> node list \<Rightarrow> py_error + vec3 list" where
  "points_3d heightmap default_elevation olat olon [] = Inr []"
| "points_3d heightmap default_elevation olat olon (n # ns) =
     (case point_3d heightmap default_elevation olat olon n of
        Inl e \<Rightarrow> Inl e
      | Inr p \<Rightarrow>
          (case points_3d heightmap default_elevation olat olon ns of
             Inl e \<Rightarrow> Inl e
           | Inr ps \<Rightarrow> Inr (p # ps)))"

text \<open>
  The direction at point \<open>i\<close> before it is flattened; at an interior point the two
  segment directions are normalised with their norms in space.
\<close>

definition direction :: "vec3 list \<Rightarrow> nat \<Rightarrow> vec3 option" where
  "direction pts i =
     (let p = pts ! i
      in if i = 0 then Some (vsub (pts ! (i + 1)) p)
         else if i = length pts - 1 then Some (vsub p (pts ! (i - 1)))
         else
           let dir_in = vsub p (pts ! (i - 1));
               dir_out = vsub (pts ! (i + 1)) p
           in if norm3 dir_in = 0 \<or> norm3 dir_out = 0 then None
              else Some (vadd (vdiv dir_in (norm3 dir_in)) (vdiv dir_out (norm3 dir_out))))"

text \<open>\<^verbatim>\<open>direction[1] = 0\<close> and the norm of the result.\<close>

fun flatten :: "vec3 \<Rightarrow> vec3" where
  "flatten (x, y, z) = (x, 0, z)"

definition flat_length :: "vec3 \<Rightarrow> real" where
  "flat_length d = norm3 (flatten d)"

text \<open>
  The perpendicular in the XZ plane. A NaN length fails the test \<^verbatim>\<open>length < 0.001\<close>, so
  a NaN direction gives a NaN perpendicular.
\<close>

definition perp :: "vec3 option \<Rightarrow> vec3 option" where
  "perp dir =
     (case dir of
        None \<Rightarrow> None
      | Some d \<Rightarrow>
          if flat_length d < 0.001 then Some (1, 0, 0)
          else (case vdiv (flatten d) (flat_length d) of
                  (dx, dy, dz) \<Rightarrow> Some (- dz, 0, dx)))"

definition left_vertex :: "vec3 list \<Rightarrow> real \<Rightarrow> nat \<Rightarrow> vec3 option" where
  "left_vertex pts half_width i =
     map_option (\<lambda>q. vadd (pts ! i) (vscale q half_width)) (perp (direction pts i))"

definition right_vertex :: "vec3 list \<Rightarrow> real \<Rightarrow> nat \<Rightarrow> vec3 option" where
  "right_vertex pts half_width i =
     map_option (\<lambda>q. vsub (pts ! i) (vscale q half_width)) (perp (direction pts i))"

definition strip_vertices :: "vec3 list \<Rightarrow> real \<Rightarrow> vec3 option list" where
  "strip_vertices pts half_width =
     concat (map (\<lambda>i. [left_vertex pts half_width i, right_vertex pts half_width i])
                 [0 ..< length pts])"

definition strip_faces :: "nat \<Rightarrow> (nat \<times> nat \<times> nat) list" where
  "strip_faces n =
     concat (map (\<lambda>i. let idx = i * 2
                       in [(idx, idx + 2, idx + 1), (idx + 1, idx + 2, idx + 3)])
                 [0 ..< n - 1])"

text \<open>
  The function up to its last statement: the result is the pair of arrays \<open>vertices\<close>
  and \<open>faces\<close> that it hands to \<^verbatim>\<open>trimesh.Trimesh\<close>. What the function returns is
  \<open>road_to_mesh_trimesh\<close> below.
\<close>

definition road_to_mesh ::
  "node list \<Rightarrow> real \<Rightarrow> HeightmapSampler option \<Rightarrow> real \<Rightarrow> real \<Rightarrow> real
     \<Rightarrow> py_error + vec3 option mesh option" where
  "road_to_mesh nodes w heightmap default_elevation olat olon =
     (if length nodes < 2 then Inr None
      else
        (case points_3d heightmap default_elevation olat olon nodes of
           Inl e \<Rightarrow> Inl e
         | Inr pts \<Rightarrow>
             if length pts < 2 then Inr None
             else
               let half_width = w / 2;
                   vs = strip_vertices pts half_width;
                   fs = strip_faces (length pts)
               in if length fs = 0 then Inr None
                  else Inr (Some \<lparr>vertices = vs, faces = fs\<rparr>)))"

text \<open>
  The value that \<open>road_to_mesh\<close> returns in the source: the mesh that the constructor
  \<^verbatim>\<open>trimesh.Trimesh(vertices=vertices, faces=faces)\<close> makes of the two arrays. The
  constructor belongs to the trimesh library and is a parameter.
\<close>

definition road_to_mesh_trimesh ::
  "(vec3 option list \<Rightarrow> (nat \<times> nat \<times> nat) list \<Rightarrow> 'm) \<Rightarrow> node list \<Rightarrow> real
     \<Rightarrow> HeightmapSampler option \<Rightarrow> real \<Rightarrow> real \<Rightarrow> real \<Rightarrow> py_error + 'm option" where
  "road_to_mesh_trimesh Trimesh nodes w heightmap default_elevation olat olon =
     (case road_to_mesh nodes w heightmap default_elevation olat olon of
        Inl e \<Rightarrow> Inl e
      | Inr None \<Rightarrow> Inr None
      | Inr (Some arrays) \<Rightarrow> Inr (Some (Trimesh (vertices arrays) (faces arrays))))"

text \<open>
  An instance of the constructor with its default processing, as far as exact input
  shows it: vertices with NaN coordinates are removed together with the faces that use
  them, and equal vertices are merged into their first occurrence, the faces being
  renumbered. (The library also merges vertices that agree within a tolerance; that is
  not modelled.)
\<close>

fun position :: "'a \<Rightarrow> 'a list \<Rightarrow> nat" where
  "position x [] = 0"
| "position x (y # ys) = (if x = y then 0 else Suc (position x ys))"

fun finite_vertex :: "vec3 option \<Rightarrow> bool" where
  "finite_vertex None = False"
| "finite_vertex (Some p) = True"

fun finite_vertices :: "vec3 option list \<Rightarrow> vec3 list" where
  "finite_vertices [] = []"
| "finite_vertices (None # vs) = finite_vertices vs"
| "finite_vertices (Some p # vs) = p # finite_vertices vs"

definition trimesh_process :: "vec3 option list \<Rightarrow> (nat \<times> nat \<times> nat) list \<Rightarrow> vec3 mesh" where
  "trimesh_process vs fs =
     (let finite_faces =
            filter (\<lambda>(a, b, c). finite_vertex (vs ! a) \<and> finite_vertex (vs ! b) \<and>
                                finite_vertex (vs ! c)) fs;
          merged = rev (remdups (rev (finite_vertices vs)));
          renumber = (\<lambda>i. position (the (vs ! i)) merged)
      in \<lparr>vertices = merged,
          faces = map (\<lambda>(a, b, c). (renumber a, renumber b, renumber c)) finite_faces\<rparr>)"

text \<open>
  A sampler on which \<open>sample\<close> raises nothing: no grid, or a grid of the declared shape
  with a pixel size other than zero.
\<close>

definition sampler_ok :: "HeightmapSampler option \<Rightarrow> bool" where
  "sampler_ok heightmap =
     (case heightmap of
        None \<Rightarrow> True
      | Some hm \<Rightarrow> (case grid hm of None \<Rightarrow> True | Some g \<Rightarrow> pixel_size hm \<noteq> 0 \<and> grid_shape hm))"


text \<open>Two roads of two nodes used to run the builder: one going east, one of coincident nodes.\<close>

definition road_east :: "node list" where
  "road_east = [\<lparr>lat = 0, lon = 0\<rparr>, \<lparr>lat = 0, lon = 1\<rparr>]"

definition road_same :: "node list" where
  "road_same = [\<lparr>lat = 0, lon = 0\<rparr>, \<lparr>lat = 0, lon = 0\<rparr>]"

text \<open>The local x coordinate of the node one degree east of the origin \<open>(0, 0)\<close>.\<close>

definition east_x :: real where
  "east_x = fst (latlon_to_local 0 1 0 0)"

section \<open>polygon_to_mesh\<close>

text \<open>
  The polygon operations come from the shapely library and the extrusion from trimesh;
  neither is part of the repository, so they are parameters here. \<open>'g\<close> is the type of
  shapely geometries. An operation that may raise returns \<open>None\<close> for it: both
  \<^verbatim>\<open>try\<close> blocks of \<open>polygon_to_mesh\<close> turn any exception into the result \<open>None\<close>.
\<close>

record 'g shapely =
  ShapelyPolygon :: "(real \<times> real) list \<Rightarrow> 'g option"
  is_valid :: "'g \<Rightarrow> bool"
  make_valid :: "'g \<Rightarrow> 'g option"
  geom_type :: "'g \<Rightarrow> string"
  geoms :: "'g \<Rightarrow> 'g list"
  area :: "'g \<Rightarrow> real"

text \<open>\<^verbatim>\<open>max(xs, key=f)\<close> on a list with first element \<open>best\<close>: the first greatest element.\<close>

fun max_by :: "('a \<Rightarrow> real) \<Rightarrow> 'a \<Rightarrow> 'a list \<Rightarrow> 'a" where
  "max_by f best [] = best"
| "max_by f best (x # xs) = max_by f (if f best < f x then x else best) xs"

text \<open>
  The polygon as it stands just before the area test: built from the projected points
  and, when it is not valid, repaired.
\<close>

definition repaired_polygon :: "'g shapely \<Rightarrow> (real \<times> real) list \<Rightarrow> 'g option" where
  "repaired_polygon lib points_2d =
     (case ShapelyPolygon lib points_2d of
        None \<Rightarrow> None
      | Some polygon \<Rightarrow>
          if is_valid lib polygon then Some polygon
          else
            (case make_valid lib polygon of
               None \<Rightarrow> None
             | Some fixed \<Rightarrow>
                 if geom_type lib fixed = ''GeometryCollection'' then
                   (case filter (\<lambda>g. geom_type lib g = ''Polygon'') (geoms lib fixed) of
                      [] \<Rightarrow> None
                    | p # ps \<Rightarrow> Some (max_by (area lib) p ps))
                 else if geom_type lib fixed = ''Polygon'' then Some fixed
                 else None))"

text \<open>
  The rotation by \<open>- pi / 2\<close> about the x axis, which sends \<open>(x, y, z)\<close> to \<open>(x, z, - y)\<close>,
  followed by the translation to the base elevation.
\<close>

fun place_vertex :: "real \<Rightarrow> vec3 \<Rightarrow> vec3" where
  "place_vertex base_elevation (x, y, z) = vadd (x, z, - y) (0, base_elevation, 0)"

definition polygon_to_mesh ::
  "'g shapely \<Rightarrow> ('g \<Rightarrow> real \<Rightarrow> vec3 mesh option) \<Rightarrow> node list \<Rightarrow> real \<Rightarrow> real \<Rightarrow> real \<Rightarrow> real
     \<Rightarrow> vec3 mesh option" where
  "polygon_to_mesh lib extrude_polygon nodes h base_elevation olat olon =
     (if length nodes < 3 then None
      else
        let points_2d = map (\<lambda>n. latlon_to_local (lat n) (lon n) olat olon) nodes
        in case repaired_polygon lib points_2d of
             None \<Rightarrow> None
           | Some polygon \<Rightarrow>
               if area lib polygon < 10 then None
               else
                 (case extrude_polygon polygon h of
                    None \<Rightarrow> None
                  | Some m \<Rightarrow>
                      Some (m\<lparr>vertices := map (place_vertex base_elevation) (vertices m)\<rparr>)))"

text \<open>
  A small instance of the library to run the builder on: a geometry is its ring of
  points, always valid, with the area of the shoelace formula.
\<close>

fun shoelace :: "(real \<times> real) list \<Rightarrow> real" where
  "shoelace (p # q # ps) = (fst p * snd q - fst q * snd p) + shoelace (q # ps)"
| "shoelace ps = 0"

definition ring_area :: "(real \<times> real) list \<Rightarrow> real" where
  "ring_area ps = (case ps of [] \<Rightarrow> 0 | p # qs \<Rightarrow> \<bar>shoelace (ps @ [p])\<bar> / 2)"

definition ring_lib :: "(real \<times> real) list shapely" where
  "ring_lib = \<lparr>ShapelyPolygon = Some, is_valid = (\<lambda>g. True), make_valid = Some,
               geom_type = (\<lambda>g. ''Polygon''), geoms = (\<lambda>g. []), area = ring_area\<rparr>"

text \<open>Three nodes on one parallel: a footprint that encloses no area.\<close>

definition sliver :: "node list" where
  "sliver = [\<lparr>lat = 0, lon = 0\<rparr>, \<lparr>lat = 0, lon = 1\<rparr>, \<lparr>lat = 0, lon = 0\<rparr>]"

section \<open>Properties of rounding\<close>

lemma round_even_of_int: "round_even (of_int k) = k"
  by (simp add: round_even_def)

lemma round_even_ge_floor: "\<lfloor>y\<rfloor> \<le> round_even y"
  by (simp add: round_even_def Let_def)

lemma round_even_le_floor1: "round_even y \<le> \<lfloor>y\<rfloor> + 1"
  by (simp add: round_even_def Let_def)

lemma round_even_lower: "of_int k \<le> y \<Longrightarrow> k \<le> round_even y"
proof -
  assume "of_int k \<le> y"
  then have "k \<le> \<lfloor>y\<rfloor>" by (simp add: le_floor_iff)
  then show ?thesis using round_even_ge_floor [of y] by linarith
qed

lemma round_even_upper:
  assumes "y \<le> of_int k"
  shows "round_even y \<le> k"
proof (cases "y = of_int k")
  case True
  then show ?thesis by (simp add: round_even_of_int)
next
  case False
  then have "y < of_int k" using assms by simp
  then have "\<lfloor>y\<rfloor> < k" by (simp add: floor_less_iff)
  then show ?thesis using round_even_le_floor1 [of y] by linarith
qed

lemma round_even_small:
  assumes "\<bar>y\<bar> \<le> 1 / 2"
  shows "round_even y = 0"
proof (cases "0 \<le> y")
  case True
  then have f: "\<lfloor>y\<rfloor> = 0" using assms by (simp add: floor_eq_iff)
  show ?thesis using assms True by (simp add: round_even_def f)
next
  case False
  then have f: "\<lfloor>y\<rfloor> = - 1" using assms by (simp add: floor_eq_iff)
  show ?thesis using assms False by (simp add: round_even_def f Let_def)
qed

lemma round_even_big:
  assumes "1 / 2 < \<bar>y\<bar>"
  shows "1 \<le> \<bar>round_even y\<bar>"
proof (cases "0 \<le> y")
  case True
  show ?thesis
  proof (cases "1 \<le> y")
    case True
    then have "1 \<le> round_even y" using round_even_lower [of 1 y] by simp
    then show ?thesis by simp
  next
    case False
    then have f: "\<lfloor>y\<rfloor> = 0" using \<open>0 \<le> y\<close> by (simp add: floor_eq_iff)
    have "round_even y = 1" using assms \<open>0 \<le> y\<close> by (simp add: round_even_def f)
    then show ?thesis by simp
  qed
next
  case False
  then have "y < - (1 / 2)" using assms by simp
  then have "y \<le> of_int (- 1) \<or> \<lfloor>y\<rfloor> = - 1" by (auto simp: floor_eq_iff)
  then show ?thesis
  proof
    assume "y \<le> of_int (- 1)"
    then have "round_even y \<le> - 1" by (rule round_even_upper)
    then show ?thesis by simp
  next
    assume f: "\<lfloor>y\<rfloor> = - 1"
    have "round_even y = - 1" using \<open>y < - (1 / 2)\<close> by (simp add: round_even_def f)
    then show ?thesis by simp
  qed
qed

lemma powi_le_iff_floor_log:
  assumes "0 < x"
  shows "(2::real) powi e \<le> x \<longleftrightarrow> e \<le> \<lfloor>log 2 x\<rfloor>"
proof -
  have "e \<le> \<lfloor>log 2 x\<rfloor> \<longleftrightarrow> of_int e \<le> log 2 x" by (simp add: le_floor_iff)
  also have "\<dots> \<longleftrightarrow> 2 powr (of_int e) \<le> x" using assms by (simp add: le_log_iff)
  also have "2 powr (of_int e) = (2::real) powi e" by (simp add: powr_real_of_int')
  finally show ?thesis by simp
qed

lemma ulp_pos: "0 < ulp x"
  by (simp add: ulp_def)

lemma binade_ge: "- 1022 \<le> binade x"
  by (simp add: binade_def)

lemma min_subnormal_pos: "0 < min_subnormal"
  by (simp add: min_subnormal_def)

lemma ulp_ge: "min_subnormal \<le> ulp x"
proof -
  have "(2::real) powi (- 1074) \<le> 2 powi (binade x - 52)"
    using binade_ge [of x] by (intro power_int_increasing) simp_all
  then show ?thesis by (simp add: ulp_def min_subnormal_def power_int_minus_divide)
qed


lemma two_powi_add: "(2::real) powi (a + b) = 2 powi a * 2 powi b"
  by (simp add: power_int_add)

lemma floor_log_bounds:
  assumes "x \<noteq> 0"
  shows "(2::real) powi \<lfloor>log 2 \<bar>x\<bar>\<rfloor> \<le> \<bar>x\<bar>"
  using assms powi_le_iff_floor_log [of "\<bar>x\<bar>" "\<lfloor>log 2 \<bar>x\<bar>\<rfloor>"] by simp

lemma binade_cases:
  "(binade x = \<lfloor>log 2 \<bar>x\<bar>\<rfloor> \<and> - 1022 \<le> \<lfloor>log 2 \<bar>x\<bar>\<rfloor>) \<or>
   (binade x = - 1022 \<and> \<lfloor>log 2 \<bar>x\<bar>\<rfloor> < - 1022)"
  unfolding binade_def by linarith

lemma ulp_subnormal: "binade x = - 1022 \<Longrightarrow> ulp x = min_subnormal"
  by (simp add: ulp_def min_subnormal_def power_int_minus_divide)

lemma ulp_le_abs:
  assumes "x \<noteq> 0" and "binade x = \<lfloor>log 2 \<bar>x\<bar>\<rfloor>"
  shows "ulp x * 2 ^ 52 \<le> \<bar>x\<bar>"
proof -
  have "ulp x * 2 ^ 52 = 2 powi (binade x - 52) * 2 powi 52" by (simp add: ulp_def)
  also have "\<dots> = 2 powi (binade x - 52 + 52)" by (simp only: two_powi_add)
  also have "\<dots> = 2 powi \<lfloor>log 2 \<bar>x\<bar>\<rfloor>" using assms(2) by simp
  also have "\<dots> \<le> \<bar>x\<bar>" using assms(1) by (rule floor_log_bounds)
  finally show ?thesis .
qed

lemma rnd_0: "rnd 0 = 0"
  by (simp add: rnd_def)

lemma rnd_underflow:
  assumes "\<bar>x\<bar> \<le> min_subnormal / 2"
  shows "rnd x = 0"
proof (cases "x = 0")
  case True
  then show ?thesis by (simp add: rnd_def)
next
  case False
  have "\<not> (2::real) powi (- 1021) \<le> \<bar>x\<bar>"
  proof
    assume "(2::real) powi (- 1021) \<le> \<bar>x\<bar>"
    then have "(1::real) / 2 ^ 1021 \<le> 1 / 2 ^ 1074 / 2"
      using assms by (simp add: power_int_minus_divide min_subnormal_def)
    then show False by simp
  qed
  then have "\<lfloor>log 2 \<bar>x\<bar>\<rfloor> < - 1021"
    using False powi_le_iff_floor_log [of "\<bar>x\<bar>" "- 1021"] by simp
  then have b: "binade x = - 1022" unfolding binade_def by linarith
  have u: "ulp x = min_subnormal" using b by (rule ulp_subnormal)
  have "\<bar>x / ulp x\<bar> = \<bar>x\<bar> / min_subnormal"
    using min_subnormal_pos by (simp add: u)
  also have "\<dots> \<le> (min_subnormal / 2) / min_subnormal"
    using assms min_subnormal_pos by (intro divide_right_mono) simp_all
  also have "\<dots> = 1 / 2" using min_subnormal_pos by simp
  finally have "round_even (x / ulp x) = 0" by (rule round_even_small)
  then show ?thesis by (simp add: rnd_def)
qed

lemma rnd_no_underflow:
  assumes "min_subnormal / 2 < \<bar>x\<bar>"
  shows "min_subnormal \<le> \<bar>rnd x\<bar>"
proof -
  have nz: "x \<noteq> 0" using assms min_subnormal_pos by auto
  have "ulp x / 2 < \<bar>x\<bar>"
    using binade_cases [of x]
  proof
    assume a: "binade x = \<lfloor>log 2 \<bar>x\<bar>\<rfloor> \<and> - 1022 \<le> \<lfloor>log 2 \<bar>x\<bar>\<rfloor>"
    have "ulp x / 2 < ulp x * 2 ^ 52" using ulp_pos [of x] by simp
    also have "\<dots> \<le> \<bar>x\<bar>" using nz a by (intro ulp_le_abs) simp_all
    finally show ?thesis .
  next
    assume a: "binade x = - 1022 \<and> \<lfloor>log 2 \<bar>x\<bar>\<rfloor> < - 1022"
    then have "ulp x = min_subnormal" by (intro ulp_subnormal) simp
    then show ?thesis using assms by simp
  qed
  then have "1 / 2 < \<bar>x\<bar> / ulp x"
    using ulp_pos [of x] by (simp add: field_simps)
  then have "1 / 2 < \<bar>x / ulp x\<bar>" using ulp_pos [of x] by simp
  then have "1 \<le> \<bar>round_even (x / ulp x)\<bar>" by (rule round_even_big)
  then have "1 \<le> \<bar>real_of_int (round_even (x / ulp x))\<bar>" by linarith
  then have "1 * ulp x \<le> \<bar>real_of_int (round_even (x / ulp x))\<bar> * ulp x"
    using ulp_pos [of x] by (intro mult_right_mono) simp_all
  then have "ulp x \<le> \<bar>rnd x\<bar>"
    using nz ulp_pos [of x] by (simp add: rnd_def abs_mult)
  then show ?thesis using ulp_ge [of x] by linarith
qed

lemma rnd_ge_power:
  assumes "- 1074 \<le> n" and "2 powi n \<le> x"
  shows "2 powi n \<le> rnd x"
proof -
  have pos: "0 < x"
    using assms(2) zero_less_power_int [of "2::real" n] by linarith
  then have nz: "x \<noteq> 0" and ax: "\<bar>x\<bar> = x" by simp_all
  have nF: "n \<le> \<lfloor>log 2 \<bar>x\<bar>\<rfloor>"
    using assms(2) pos powi_le_iff_floor_log [of x n] by simp
  have "\<exists>k. of_int k \<le> x / ulp x \<and> 2 powi n \<le> of_int k * ulp x"
    using binade_cases [of x]
  proof
    assume a: "binade x = \<lfloor>log 2 \<bar>x\<bar>\<rfloor> \<and> - 1022 \<le> \<lfloor>log 2 \<bar>x\<bar>\<rfloor>"
    have "ulp x * 2 ^ 52 \<le> x" using ulp_le_abs [OF nz] a ax by simp
    then have 1: "of_int (2 ^ 52) \<le> x / ulp x"
      using ulp_pos [of x] by (simp add: field_simps)
    have "2 powi n \<le> (2::real) powi \<lfloor>log 2 \<bar>x\<bar>\<rfloor>"
      using nF by (intro power_int_increasing) simp_all
    also have "\<dots> = 2 powi (binade x - 52 + 52)" using a by simp
    also have "\<dots> = 2 powi (binade x - 52) * 2 powi 52" by (rule two_powi_add)
    also have "\<dots> = of_int (2 ^ 52) * ulp x" by (simp add: ulp_def)
    finally show ?thesis using 1 by blast
  next
    assume a: "binade x = - 1022 \<and> \<lfloor>log 2 \<bar>x\<bar>\<rfloor> < - 1022"
    then have u: "ulp x = 1 / 2 ^ 1074" using ulp_subnormal [of x] by (simp add: min_subnormal_def)
    define k :: int where "k = 2 ^ nat (n + 1074)"
    have "(2::real) powi n = 2 powi (n + 1074 + (- 1074))" by simp
    also have "\<dots> = 2 powi (n + 1074) * 2 powi (- 1074)" by (rule two_powi_add)
    also have "(2::real) powi (n + 1074) = 2 ^ nat (n + 1074)"
      using assms(1) by (intro power_int_nonneg_exp) simp
    finally have p: "2 powi n = of_int k * ulp x"
      by (simp add: k_def u power_int_minus_divide)
    then have "of_int k \<le> x / ulp x"
      using assms(2) ulp_pos [of x] by (simp add: field_simps)
    then show ?thesis using p by auto
  qed
  then obtain k where k: "of_int k \<le> x / ulp x" "2 powi n \<le> of_int k * ulp x" by blast
  have "k \<le> round_even (x / ulp x)" using k(1) by (rule round_even_lower)
  then have "of_int k * ulp x \<le> of_int (round_even (x / ulp x)) * ulp x"
    using ulp_pos [of x] by (intro mult_right_mono) simp_all
  then show ?thesis using k(2) nz by (simp add: rnd_def)
qed

lemma rnd_le_power:
  assumes "- 1074 \<le> n" and "0 \<le> x" and "x \<le> 2 powi n"
  shows "rnd x \<le> 2 powi n"
proof (cases "x = 0")
  case True
  then show ?thesis by (simp add: rnd_def)
next
  case nz: False
  then have pos: "0 < x" and ax: "\<bar>x\<bar> = x" using assms(2) by simp_all
  have Fn: "\<lfloor>log 2 \<bar>x\<bar>\<rfloor> \<le> n"
  proof (rule ccontr)
    assume "\<not> \<lfloor>log 2 \<bar>x\<bar>\<rfloor> \<le> n"
    then have "n + 1 \<le> \<lfloor>log 2 x\<rfloor>" using ax by simp
    then have "2 powi (n + 1) \<le> x" using pos powi_le_iff_floor_log [of x "n + 1"] by simp
    moreover have "(2::real) powi n < 2 powi (n + 1)"
      by (intro power_int_strict_increasing) simp_all
    ultimately show False using assms(3) by linarith
  qed
  define d where "d = n - binade x + 52"
  have d: "0 \<le> d" using binade_cases [of x] Fn assms(1) by (auto simp: d_def)
  define k :: int where "k = 2 ^ nat d"
  have "(2::real) powi n = 2 powi (d + (binade x - 52))" by (simp add: d_def)
  also have "\<dots> = 2 powi d * 2 powi (binade x - 52)" by (rule two_powi_add)
  also have "(2::real) powi d = 2 ^ nat d" using d by (rule power_int_nonneg_exp)
  finally have p: "2 powi n = of_int k * ulp x" by (simp add: k_def ulp_def)
  then have "x / ulp x \<le> of_int k"
    using assms(3) ulp_pos [of x] by (simp add: field_simps)
  then have "round_even (x / ulp x) \<le> k" by (rule round_even_upper)
  then have "of_int (round_even (x / ulp x)) * ulp x \<le> of_int k * ulp x"
    using ulp_pos [of x] by (intro mult_right_mono) simp_all
  then show ?thesis using p nz by (simp add: rnd_def)
qed

lemma rnd_exact:
  assumes "x = of_int k * ulp x"
  shows "rnd x = x"
proof (cases "x = 0")
  case True
  then show ?thesis by (simp add: rnd_def)
next
  case False
  have "x / ulp x = of_int k" using assms ulp_pos [of x] by (simp add: field_simps)
  then have "round_even (x / ulp x) = k" by (simp add: round_even_of_int)
  then show ?thesis using assms False by (simp add: rnd_def)
qed

lemma rnd_of_int:
  assumes "\<bar>m\<bar> < 2 ^ 53"
  shows "rnd (of_int m) = of_int m"
proof (cases "m = 0")
  case True
  then show ?thesis by (simp add: rnd_def)
next
  case False
  define x :: real where "x = of_int m"
  define F where "F = \<lfloor>log 2 \<bar>x\<bar>\<rfloor>"
  have nz: "x \<noteq> 0" using False by (simp add: x_def)
  have "1 \<le> \<bar>m\<bar>" using False by simp
  then have "(2::real) powi 0 \<le> \<bar>x\<bar>" unfolding x_def by simp
  then have F0: "0 \<le> F" using nz powi_le_iff_floor_log [of "\<bar>x\<bar>" 0] by (simp add: F_def)
  have "\<not> (2::real) powi 53 \<le> \<bar>x\<bar>"
  proof
    assume "(2::real) powi 53 \<le> \<bar>x\<bar>"
    then have "(2::real) ^ 53 \<le> of_int \<bar>m\<bar>" by (simp add: x_def)
    then have "(2::int) ^ 53 \<le> \<bar>m\<bar>" by (metis of_int_le_iff of_int_numeral of_int_power)
    then show False using assms by simp
  qed
  then have F53: "F \<le> 52" using nz powi_le_iff_floor_log [of "\<bar>x\<bar>" 53] by (simp add: F_def)
  have b: "binade x = F" using F0 by (simp add: binade_def F_def)
  define k :: int where "k = m * 2 ^ nat (52 - F)"
  have "(1::real) = 2 powi (52 - F + (F - 52))" by simp
  also have "\<dots> = 2 powi (52 - F) * 2 powi (F - 52)" by (rule two_powi_add)
  also have "(2::real) powi (52 - F) = 2 ^ nat (52 - F)"
    using F53 by (intro power_int_nonneg_exp) simp
  finally have "1 = 2 ^ nat (52 - F) * ulp x" by (simp add: ulp_def b)
  then have "x = x * (2 ^ nat (52 - F) * ulp x)" by simp
  then have "x = of_int k * ulp x" by (simp add: k_def x_def mult.assoc)
  then show ?thesis unfolding x_def [symmetric] by (rule rnd_exact)
qed


lemma rnd_nonneg: "0 \<le> x \<Longrightarrow> 0 \<le> rnd x"
proof -
  assume "0 \<le> x"
  then have "of_int 0 \<le> x / ulp x" using ulp_pos [of x] by simp
  then have "0 \<le> round_even (x / ulp x)" by (rule round_even_lower)
  then show ?thesis using ulp_pos [of x] by (simp add: rnd_def)
qed

lemma rnd_numeral: "(numeral k :: int) < 2 ^ 53 \<Longrightarrow> rnd (numeral k) = numeral k"
  using rnd_of_int [of "numeral k"] by simp

lemma rnd_neg_numeral: "(numeral k :: int) < 2 ^ 53 \<Longrightarrow> rnd (- numeral k) = - numeral k"
  using rnd_of_int [of "- numeral k"] by simp

lemma rnd_1: "rnd 1 = 1"
  using rnd_of_int [of 1] by simp

section \<open>Properties of the projection in doubles\<close>

lemma pi_double_bounds: "2 \<le> pi_double" "pi_double \<le> 4"
proof -
  have "2 powi 1 \<le> rnd pi" using pi_ge_two by (intro rnd_ge_power) simp_all
  then show "2 \<le> pi_double" by (simp add: pi_double_def)
  have "rnd pi \<le> 2 powi 2" using pi_less_4 pi_ge_two by (intro rnd_le_power) simp_all
  then show "pi_double \<le> 4" by (simp add: pi_double_def)
qed

lemma rad_bounds: "1 / 128 \<le> rnd (pi_double / 180)" "rnd (pi_double / 180) \<le> 1 / 32"
proof -
  have "2 powi (- 7) \<le> rnd (pi_double / 180)"
    using pi_double_bounds by (intro rnd_ge_power) (simp_all add: power_int_minus_divide)
  then show "1 / 128 \<le> rnd (pi_double / 180)" by (simp add: power_int_minus_divide)
  have "rnd (pi_double / 180) \<le> 2 powi (- 5)"
    using pi_double_bounds by (intro rnd_le_power) (simp_all add: power_int_minus_divide)
  then show "rnd (pi_double / 180) \<le> 1 / 32" by (simp add: power_int_minus_divide)
qed

lemma meters_per_deg_lat_bounds:
  "1 \<le> meters_per_deg_lat_double" "meters_per_deg_lat_double \<le> 2 ^ 18"
proof -
  have "2 powi 0 \<le> rnd (rnd (pi_double / 180) * EARTH_RADIUS)"
    using rad_bounds(1) by (intro rnd_ge_power) (simp_all add: EARTH_RADIUS_def)
  then show "1 \<le> meters_per_deg_lat_double" by (simp add: meters_per_deg_lat_double_def)
  have "rnd (rnd (pi_double / 180) * EARTH_RADIUS) \<le> 2 powi 18"
    using rad_bounds by (intro rnd_le_power) (simp_all add: EARTH_RADIUS_def)
  then show "meters_per_deg_lat_double \<le> 2 ^ 18" by (simp add: meters_per_deg_lat_double_def)
qed

lemma METERS_TO_FEET_double_ge: "1 \<le> METERS_TO_FEET_double"
proof -
  have "2 powi 0 \<le> rnd 3.28084" by (intro rnd_ge_power) simp_all
  then show ?thesis by (simp add: METERS_TO_FEET_double_def)
qed

lemma rnd_scaled_nonzero:
  assumes "min_subnormal \<le> \<bar>y\<bar>" and "1 \<le> \<bar>c\<bar>"
  shows "min_subnormal \<le> \<bar>rnd (y * c)\<bar>"
proof -
  have "\<bar>y\<bar> * 1 \<le> \<bar>y\<bar> * \<bar>c\<bar>" using assms(2) by (intro mult_left_mono) simp_all
  then have "min_subnormal \<le> \<bar>y * c\<bar>" using assms(1) by (simp add: abs_mult)
  then have "min_subnormal / 2 < \<bar>y * c\<bar>" using min_subnormal_pos by linarith
  then show ?thesis by (rule rnd_no_underflow)
qed

lemma is_double_diff:
  assumes "is_double a" "is_double b" "a \<noteq> b"
  shows "min_subnormal \<le> \<bar>rnd (a - b)\<bar>"
proof -
  obtain n m :: int where nm: "a = of_int n * min_subnormal" "b = of_int m * min_subnormal"
    using assms(1,2) by (auto simp: is_double_def)
  have "n \<noteq> m" using assms(3) nm by auto
  then have "1 \<le> \<bar>n - m\<bar>" by simp
  then have "1 \<le> \<bar>real_of_int (n - m)\<bar>" by linarith
  then have "1 * min_subnormal \<le> \<bar>real_of_int (n - m)\<bar> * min_subnormal"
    using min_subnormal_pos by (intro mult_right_mono) simp_all
  moreover have "a - b = of_int (n - m) * min_subnormal" by (simp add: nm left_diff_distrib)
  ultimately have "min_subnormal \<le> \<bar>a - b\<bar>"
    using min_subnormal_pos by (simp add: abs_mult)
  then have "min_subnormal / 2 < \<bar>a - b\<bar>" using min_subnormal_pos by linarith
  then show ?thesis by (rule rnd_no_underflow)
qed

lemma north_zero_iff:
  assumes "is_double la" "is_double olat"
  shows "rnd (rnd (rnd (la - olat) * meters_per_deg_lat_double) * METERS_TO_FEET_double) = 0
           \<longleftrightarrow> la = olat"
proof (cases "la = olat")
  case True
  then show ?thesis by (simp add: rnd_0)
next
  case False
  have m: "1 \<le> \<bar>meters_per_deg_lat_double\<bar>" "1 \<le> \<bar>METERS_TO_FEET_double\<bar>"
    using meters_per_deg_lat_bounds(1) METERS_TO_FEET_double_ge by simp_all
  have "min_subnormal \<le> \<bar>rnd (la - olat)\<bar>" using assms False by (rule is_double_diff)
  then have "min_subnormal \<le> \<bar>rnd (rnd (la - olat) * meters_per_deg_lat_double)\<bar>"
    using m(1) by (rule rnd_scaled_nonzero)
  then have "min_subnormal \<le>
      \<bar>rnd (rnd (rnd (la - olat) * meters_per_deg_lat_double) * METERS_TO_FEET_double)\<bar>"
    using m(2) by (rule rnd_scaled_nonzero)
  then show ?thesis using False min_subnormal_pos by auto
qed

lemma east_zero_iff:
  "rnd (rnd (rnd (lo - olon) * k) * METERS_TO_FEET_double) = 0
     \<longleftrightarrow> \<bar>rnd (lo - olon) * k\<bar> \<le> min_subnormal / 2"
proof (cases "\<bar>rnd (lo - olon) * k\<bar> \<le> min_subnormal / 2")
  case True
  then have "rnd (rnd (lo - olon) * k) = 0" by (rule rnd_underflow)
  then show ?thesis using True by (simp add: rnd_0)
next
  case False
  have m: "1 \<le> \<bar>METERS_TO_FEET_double\<bar>" using METERS_TO_FEET_double_ge by simp
  have "min_subnormal / 2 < \<bar>rnd (lo - olon) * k\<bar>" using False by simp
  then have "min_subnormal \<le> \<bar>rnd (rnd (lo - olon) * k)\<bar>" by (rule rnd_no_underflow)
  then have "min_subnormal \<le> \<bar>rnd (rnd (rnd (lo - olon) * k) * METERS_TO_FEET_double)\<bar>"
    using m by (rule rnd_scaled_nonzero)
  then show ?thesis using False min_subnormal_pos by auto
qed

lemma is_double_int: "is_double (of_int n)"
proof -
  have "real_of_int n = of_int (n * 2 ^ 1074) * min_subnormal"
    by (simp add: min_subnormal_def)
  then show ?thesis unfolding is_double_def by blast
qed

lemma is_double_min_subnormal: "is_double min_subnormal"
  unfolding is_double_def by (intro exI [of _ 1]) simp

lemma product_no_underflow:
  assumes "is_double lo" "is_double olon" "lo \<noteq> olon" and "1 \<le> \<bar>k\<bar>"
  shows "min_subnormal / 2 < \<bar>rnd (lo - olon) * k\<bar>"
proof -
  have "min_subnormal \<le> \<bar>rnd (lo - olon)\<bar>" using assms(1-3) by (rule is_double_diff)
  moreover have "\<bar>rnd (lo - olon)\<bar> * 1 \<le> \<bar>rnd (lo - olon)\<bar> * \<bar>k\<bar>"
    using assms(4) by (intro mult_left_mono) simp_all
  ultimately show ?thesis using min_subnormal_pos by (simp add: abs_mult)
qed

section \<open>Properties of the sampler\<close>

lemma py_int_of_int: "py_int (of_int n) = n"
  by (simp add: py_int_def)

lemma py_int_floor: "0 \<le> x \<Longrightarrow> py_int x = \<lfloor>x\<rfloor>"
  by (simp add: py_int_def)

lemma grid_at_ok:
  assumes "int (length g) = h" "list_all (\<lambda>r. int (length r) = w) g"
    and "0 \<le> r" "r < h" "0 \<le> c" "c < w"
  shows "grid_at g r c = Inr (g ! nat r ! nat c)"
proof -
  have "nat r < length g" using assms by linarith
  then have "int (length (g ! nat r)) = w"
    using assms(2) by (simp add: list_all_length)
  then show ?thesis using assms by (simp add: grid_at_def)
qed

lemma bilinear_node: "bilinear v00 v01 v10 v11 0 0 = v00"
  by (simp add: bilinear_def)



text \<open>
  Inside the bounds check, and on a grid of the declared shape, \<open>sample\<close> returns the
  bilinear value of the four corners around the query point.
\<close>

lemma sample_in_bounds:
  assumes g: "grid s = Some g" and sh: "grid_shape s" and px: "pixel_size s \<noteq> 0"
    and c: "0 \<le> frac_col s lo" "frac_col s lo < of_int (width s - 1)"
    and r: "0 \<le> frac_row s la" "frac_row s la < of_int (height s - 1)"
  shows "sample s la lo =
           Inr (Some (bilinear
                        (g ! nat \<lfloor>frac_row s la\<rfloor> ! nat \<lfloor>frac_col s lo\<rfloor>)
                        (g ! nat \<lfloor>frac_row s la\<rfloor> ! nat (\<lfloor>frac_col s lo\<rfloor> + 1))
                        (g ! nat (\<lfloor>frac_row s la\<rfloor> + 1) ! nat \<lfloor>frac_col s lo\<rfloor>)
                        (g ! nat (\<lfloor>frac_row s la\<rfloor> + 1) ! nat (\<lfloor>frac_col s lo\<rfloor> + 1))
                        (frac_col s lo - of_int \<lfloor>frac_col s lo\<rfloor>)
                        (frac_row s la - of_int \<lfloor>frac_row s la\<rfloor>)
                      * METERS_TO_FEET))"
proof -
  define col where "col = frac_col s lo"
  define row where "row = frac_row s la"
  have shape: "int (length g) = height s" "list_all (\<lambda>r. int (length r) = width s) g"
    using g sh by (simp_all add: grid_shape_def)
  have "\<lfloor>col\<rfloor> < width s - 1"
    using c(2) unfolding col_def [symmetric] by (subst floor_less_iff)
  then have fc: "0 \<le> \<lfloor>col\<rfloor>" "\<lfloor>col\<rfloor> + 1 < width s"
    using c(1) unfolding col_def [symmetric] by simp_all
  have "\<lfloor>row\<rfloor> < height s - 1"
    using r(2) unfolding row_def [symmetric] by (subst floor_less_iff)
  then have fr: "0 \<le> \<lfloor>row\<rfloor>" "\<lfloor>row\<rfloor> + 1 < height s"
    using r(1) unfolding row_def [symmetric] by simp_all
  have g00: "grid_at g \<lfloor>row\<rfloor> \<lfloor>col\<rfloor> = Inr (g ! nat \<lfloor>row\<rfloor> ! nat \<lfloor>col\<rfloor>)"
    using fc fr by (intro grid_at_ok [OF shape]) simp_all
  have g01: "grid_at g \<lfloor>row\<rfloor> (\<lfloor>col\<rfloor> + 1) = Inr (g ! nat \<lfloor>row\<rfloor> ! nat (\<lfloor>col\<rfloor> + 1))"
    using fc fr by (intro grid_at_ok [OF shape]) simp_all
  have g10: "grid_at g (\<lfloor>row\<rfloor> + 1) \<lfloor>col\<rfloor> = Inr (g ! nat (\<lfloor>row\<rfloor> + 1) ! nat \<lfloor>col\<rfloor>)"
    using fc fr by (intro grid_at_ok [OF shape]) simp_all
  have g11: "grid_at g (\<lfloor>row\<rfloor> + 1) (\<lfloor>col\<rfloor> + 1) = Inr (g ! nat (\<lfloor>row\<rfloor> + 1) ! nat (\<lfloor>col\<rfloor> + 1))"
    using fc fr by (intro grid_at_ok [OF shape]) simp_all
  have pc: "py_int col = \<lfloor>col\<rfloor>" "py_int row = \<lfloor>row\<rfloor>"
    using c(1) r(1) by (simp_all add: py_int_floor col_def row_def)
  have guard: "\<not> (col < 0 \<or> col \<ge> of_int (width s - 1) \<or> row < 0 \<or> row \<ge> of_int (height s - 1))"
    using c r by (simp add: col_def row_def not_le)
  have "sample s la lo =
          (let c0 = py_int col; c1 = py_int col + 1; r0 = py_int row; r1 = py_int row + 1;
               dc = col - of_int c0; dr = row - of_int r0
           in case grid_at g r0 c0 of Inl e \<Rightarrow> Inl e | Inr v00 \<Rightarrow>
              (case grid_at g r0 c1 of Inl e \<Rightarrow> Inl e | Inr v01 \<Rightarrow>
              (case grid_at g r1 c0 of Inl e \<Rightarrow> Inl e | Inr v10 \<Rightarrow>
              (case grid_at g r1 c1 of Inl e \<Rightarrow> Inl e | Inr v11 \<Rightarrow>
                 Inr (Some (bilinear v00 v01 v10 v11 dc dr * METERS_TO_FEET))))))"
    using g px guard
    by (simp add: sample_def col_def row_def frac_col_def frac_row_def Let_def)
  also have "\<dots> = Inr (Some (bilinear (g ! nat \<lfloor>row\<rfloor> ! nat \<lfloor>col\<rfloor>)
        (g ! nat \<lfloor>row\<rfloor> ! nat (\<lfloor>col\<rfloor> + 1)) (g ! nat (\<lfloor>row\<rfloor> + 1) ! nat \<lfloor>col\<rfloor>)
        (g ! nat (\<lfloor>row\<rfloor> + 1) ! nat (\<lfloor>col\<rfloor> + 1)) (col - of_int \<lfloor>col\<rfloor>) (row - of_int \<lfloor>row\<rfloor>)
        * METERS_TO_FEET))"
    by (simp add: Let_def pc g00 g01 g10 g11)
  finally show ?thesis by (simp add: col_def row_def)
qed

section \<open>Claims about the sampler\<close>

text \<open>
  C8. \<open>sample\<close> returns absent (\<open>None\<close>) whenever no grid is loaded, and whenever the
  fractional column it computes lies outside \<open>[0, width - 1)\<close> or the fractional row lies
  outside \<open>[0, height - 1)\<close>: nothing is clamped or extrapolated. (The column and the row
  are computed by a division by the pixel size, which Python carries out only for a pixel
  size other than zero.)
\<close>

theorem sample_absent_outside:
  "(grid s = None \<longrightarrow> sample s la lo = Inr None) \<and>
   (pixel_size s \<noteq> 0 \<and>
    (frac_col s lo < 0 \<or> frac_col s lo \<ge> of_int (width s) - 1 \<or>
     frac_row s la < 0 \<or> frac_row s la \<ge> of_int (height s) - 1)
    \<longrightarrow> sample s la lo = Inr None)"
  by (auto simp: sample_def frac_col_def frac_row_def Let_def split: option.splits)

theorem sample_absent_outside_witness:
  "grid (grid2\<lparr>grid := None\<rparr>) = None \<and> sample (grid2\<lparr>grid := None\<rparr>) 0 0 = Inr None \<and>
   pixel_size grid3 \<noteq> 0 \<and> frac_col grid3 2 \<ge> of_int (width grid3) - 1 \<and>
   sample grid3 (-1) 2 = Inr None"
proof -
  have h1: "grid (grid2\<lparr>grid := None\<rparr>) = None" by simp
  have h2: "pixel_size grid3 \<noteq> 0" "frac_col grid3 2 \<ge> of_int (width grid3) - 1"
    by (simp_all add: grid3_def frac_col_def)
  show ?thesis
    using h1 h2 sample_absent_outside [of "grid2\<lparr>grid := None\<rparr>" 0 0]
      sample_absent_outside [of grid3 "-1" 2]
    by blast
qed

text \<open>
  C3, as the claim states it, fails on the last row and the last column: the bounds check
  of \<open>sample\<close> answers \<open>None\<close> for a column equal to \<open>width - 1\<close> or a row equal to
  \<open>height - 1\<close>. On the 2 by 2 grid the node \<open>(1, 1)\<close> holds 4, and the point that maps to
  row 1 and column 1 gets no value.
\<close>

theorem sample_last_node_counterexample:
  "grid grid2 = Some [[1, 2], [3, 4]] \<and> height grid2 = 2 \<and> width grid2 = 2 \<and>
   frac_row grid2 (-1) = 1 \<and> frac_col grid2 1 = 1 \<and>
   sample grid2 (-1) 1 = Inr None \<and>
   sample grid2 (-1) 1 \<noteq> Inr (Some ([[1, 2], [3, 4]] ! 1 ! 1 * 3.28084))"
  by (simp add: grid2_def frac_row_def frac_col_def sample_def)

text \<open>
  C3, amended. For a loaded grid and a node \<open>(r, c)\<close> with \<open>0 \<le> r < height - 1\<close> and
  \<open>0 \<le> c < width - 1\<close>, the sample at the point that maps exactly to row \<open>r\<close> and column
  \<open>c\<close> is \<open>grid[r][c] * 3.28084\<close>, with no interpolation error.
\<close>

theorem sample_at_node:
  assumes "grid s = Some g" and "grid_shape s" and "pixel_size s \<noteq> 0"
    and "0 \<le> r" "r < height s - 1" "0 \<le> c" "c < width s - 1"
    and "frac_row s la = of_int r" "frac_col s lo = of_int c"
  shows "sample s la lo = Inr (Some (g ! nat r ! nat c * 3.28084))"
proof -
  have "sample s la lo =
          Inr (Some (bilinear (g ! nat r ! nat c) (g ! nat r ! nat (c + 1))
                       (g ! nat (r + 1) ! nat c) (g ! nat (r + 1) ! nat (c + 1)) 0 0
                     * METERS_TO_FEET))"
    using sample_in_bounds [OF assms(1-3), of lo la] assms(4-9) by simp
  then show ?thesis by (simp add: bilinear_node METERS_TO_FEET_def)
qed

theorem sample_at_node_witness:
  "grid grid3 = Some [[1, 2, 3], [4, 5, 6], [7, 8, 9]] \<and> grid_shape grid3 \<and>
   pixel_size grid3 \<noteq> 0 \<and> (1::int) < height grid3 - 1 \<and> (1::int) < width grid3 - 1 \<and>
   frac_row grid3 (-1) = of_int 1 \<and> frac_col grid3 1 = of_int 1 \<and>
   sample grid3 (-1) 1 = Inr (Some (5 * 3.28084))"
proof -
  have h: "grid grid3 = Some [[1, 2, 3], [4, 5, 6], [7, 8, 9]]" "grid_shape grid3"
    "pixel_size grid3 \<noteq> 0" "(0::int) \<le> 1" "(1::int) < height grid3 - 1" "(0::int) \<le> 1"
    "(1::int) < width grid3 - 1" "frac_row grid3 (-1) = of_int 1" "frac_col grid3 1 = of_int 1"
    by (simp_all add: grid3_def grid_shape_def frac_row_def frac_col_def)
  have "sample grid3 (-1) 1 = Inr (Some ([[1, 2, 3], [4, 5, 6], [7, 8, 9]] ! nat 1 ! nat 1 * 3.28084))"
    by (rule sample_at_node [OF h])
  then show ?thesis using h by simp
qed



section \<open>Claims about the projection\<close>

text \<open>
  C4, as the claim states it, fails where the product of the longitude difference and the
  meters per degree of longitude underflows. For the origin of latitude 90 the C library
  returns the cosine \<^verbatim>\<open>6.123233995736766e-17\<close>, and the point of the same latitude whose
  longitude is the least positive double, next to the origin longitude 0, projects to
  \<open>(0, 0)\<close> although it is not the origin.
\<close>

theorem latlon_to_local_double_underflow_counterexample:
  "latlon_to_local_double (rnd (6.123233995736766 / 10 ^ 17)) 90 min_subnormal 90 0 = (0, 0) \<and>
   (90 :: real, min_subnormal) \<noteq> (90, 0)"
proof -
  define c where "c = rnd (6.123233995736766 / 10 ^ 17)"
  have c: "0 \<le> c" "c \<le> 1 / 2 ^ 53"
  proof -
    show "0 \<le> c" unfolding c_def by (intro rnd_nonneg) simp
    have "c \<le> 2 powi (- 53)" unfolding c_def
      by (intro rnd_le_power) (simp_all add: power_int_minus_divide)
    then show "c \<le> 1 / 2 ^ 53" by (simp add: power_int_minus_divide)
  qed
  have m0: "0 \<le> meters_per_deg_lat_double * c"
    using meters_per_deg_lat_bounds(1) c(1) by simp
  have "meters_per_deg_lat_double * c \<le> 2 ^ 18 * (1 / 2 ^ 53)"
    using meters_per_deg_lat_bounds c by (intro mult_mono) simp_all
  then have "meters_per_deg_lat_double * c \<le> 2 powi (- 35)"
    by (simp add: power_int_minus_divide)
  then have "rnd (meters_per_deg_lat_double * c) \<le> 2 powi (- 35)"
    using m0 by (intro rnd_le_power) simp_all
  then have k: "0 \<le> meters_per_deg_lon_double c" "meters_per_deg_lon_double c \<le> 1 / 2"
    using rnd_nonneg [OF m0] by (simp_all add: meters_per_deg_lon_double_def power_int_minus_divide)
  have "min_subnormal = 2 powi (- 1074)" by (simp add: min_subnormal_def power_int_minus_divide)
  then have "rnd (min_subnormal - 0) \<le> min_subnormal"
    using rnd_le_power [of "- 1074" min_subnormal] min_subnormal_pos by simp
  then have d: "0 \<le> rnd (min_subnormal - 0)" "rnd (min_subnormal - 0) \<le> min_subnormal"
    using min_subnormal_pos by (simp_all add: rnd_nonneg)
  have "rnd (min_subnormal - 0) * meters_per_deg_lon_double c \<le> min_subnormal * (1 / 2)"
    using d k min_subnormal_pos by (intro mult_mono) simp_all
  then have "\<bar>rnd (min_subnormal - 0) * meters_per_deg_lon_double c\<bar> \<le> min_subnormal / 2"
    using d(1) k(1) by simp
  then have "rnd (rnd (min_subnormal - 0) * meters_per_deg_lon_double c) = 0"
    by (rule rnd_underflow)
  then have "latlon_to_local_double c 90 min_subnormal 90 0 = (0, 0)"
    by (simp add: latlon_to_local_double_def rnd_0)
  then show ?thesis
    using min_subnormal_pos unfolding c_def by simp
qed

text \<open>
  C4, amended. For every point P and origin given by doubles, where the product of the
  rounded longitude difference and the computed meters per degree of longitude does not
  underflow (its magnitude exceeds half the least positive double) whenever the two
  longitudes differ, \<open>latlon_to_local\<close> returns \<open>(0, 0)\<close> if and only if P equals the
  origin. By \<open>product_no_underflow\<close> this covers every origin whose computed meters per
  degree of longitude is at least 1 in magnitude.
\<close>

theorem latlon_to_local_double_zero_iff:
  assumes "is_double la" and "is_double olat"
    and "lo \<noteq> olon \<longrightarrow>
           min_subnormal / 2 < \<bar>rnd (lo - olon) * meters_per_deg_lon_double cos_origin\<bar>"
  shows "latlon_to_local_double cos_origin la lo olat olon = (0, 0) \<longleftrightarrow> la = olat \<and> lo = olon"
proof -
  have "\<bar>rnd (lo - olon) * meters_per_deg_lon_double cos_origin\<bar> \<le> min_subnormal / 2
          \<longleftrightarrow> lo = olon"
    using assms(3) min_subnormal_pos by (auto simp: rnd_0)
  then show ?thesis
    using north_zero_iff [OF assms(1,2)]
      east_zero_iff [of lo olon "meters_per_deg_lon_double cos_origin"]
    by (auto simp: latlon_to_local_double_def Let_def)
qed

theorem latlon_to_local_double_zero_iff_witness:
  "is_double 1 \<and> is_double 0 \<and>
   min_subnormal / 2 < \<bar>rnd (1 - 0) * meters_per_deg_lon_double 1\<bar> \<and>
   latlon_to_local_double 1 0 0 0 0 = (0, 0) \<and>
   latlon_to_local_double 1 1 1 0 0 \<noteq> (0, 0)"
proof -
  have d: "is_double 1" "is_double 0"
    using is_double_int [of 1] is_double_int [of 0] by simp_all
  have "2 powi 0 \<le> rnd (meters_per_deg_lat_double * 1)"
    using meters_per_deg_lat_bounds(1) by (intro rnd_ge_power) simp_all
  then have "1 \<le> meters_per_deg_lon_double 1" by (simp add: meters_per_deg_lon_double_def)
  moreover have "min_subnormal / 2 < 1" by (simp add: min_subnormal_def)
  ultimately have h: "min_subnormal / 2 < \<bar>rnd (1 - 0) * meters_per_deg_lon_double 1\<bar>"
    by (simp add: rnd_1)
  have h0: "(0::real) \<noteq> 0 \<longrightarrow>
      min_subnormal / 2 < \<bar>rnd (0 - 0) * meters_per_deg_lon_double 1\<bar>"
    by simp
  have h1: "(1::real) \<noteq> 0 \<longrightarrow>
      min_subnormal / 2 < \<bar>rnd (1 - 0) * meters_per_deg_lon_double 1\<bar>"
    using h by simp
  show ?thesis
    using d h latlon_to_local_double_zero_iff [OF d(2) d(2) h0]
      latlon_to_local_double_zero_iff [OF d(1) d(2) h1]
    by simp
qed

section \<open>Claims about the attribute resolvers\<close>




lemma to_double_of_int:
  assumes "\<bar>m\<bar> < 2 ^ 53"
  shows "to_double (of_int m) = Finite (of_int m)"
proof -
  have "real_of_int \<bar>m\<bar> < 2 ^ 53" using assms by (metis of_int_less_iff of_int_numeral of_int_power)
  moreover have "(2::real) ^ 53 \<le> 2 ^ 1024" by simp
  ultimately have "\<not> (2::real) ^ 1024 \<le> \<bar>of_int m\<bar>" by simp
  then show ?thesis using rnd_of_int [OF assms] by (simp add: to_double_def)
qed

lemma to_double_numeral:
  "(numeral k :: int) < 2 ^ 53 \<Longrightarrow> to_double (numeral k) = Finite (numeral k)"
  using to_double_of_int [of "numeral k"] by simp

lemma to_double_neg_numeral:
  "(numeral k :: int) < 2 ^ 53 \<Longrightarrow> to_double (- numeral k) = Finite (- numeral k)"
  using to_double_of_int [of "- numeral k"] by simp

lemma to_double_0: "to_double 0 = Finite 0"
  by (simp add: to_double_def rnd_0)

lemma to_double_1: "to_double 1 = Finite 1"
  using to_double_of_int [of 1] by simp

lemma to_double_underflow:
  assumes "\<bar>v\<bar> \<le> min_subnormal / 2"
  shows "to_double v = Finite 0"
  using rnd_underflow [OF assms] by (simp add: to_double_def)

lemmas parse_defs = to_double_numeral to_double_neg_numeral to_double_0 to_double_1
  dimension_tag_def count_tag_def py_float_def py_int_str_def split_sign_def
  strip_def is_space_def str_remove_def lower_def parse_number_def parse_exponent_def
  digit_val_def dict_get_def

text \<open>
  A decimal value below half the least positive double parses to zero, as it does in
  Python.
\<close>

lemma py_float_underflow_example: "py_float ''1e-324'' = Some (Finite 0)"
proof -
  have "\<bar>1 / 10 ^ 324 :: real\<bar> \<le> min_subnormal / 2" by (simp add: min_subnormal_def)
  then have "to_double (1 / 10 ^ 324) = Finite 0" by (rule to_double_underflow)
  moreover have "py_float ''1e-324'' = Some (to_double (1 / 10 ^ 324))"
    by (simp add: py_float_def split_sign_def strip_def is_space_def lower_def
        parse_number_def parse_exponent_def digit_val_def)
  ultimately show ?thesis by simp
qed

text \<open>
  C9. The resolvers return the listed values on the listed inputs.
\<close>

theorem resolver_examples:
  "get_building_height [''height'' \<mapsto> ''12m''] = Finite (12 * 3.28084) \<and>
   get_building_height [''building:levels'' \<mapsto> ''3''] = Finite 30 \<and>
   get_building_height [''building'' \<mapsto> ''house''] = Finite 25 \<and>
   get_building_height Map.empty = Finite 25 \<and>
   get_road_width [''highway'' \<mapsto> ''motorway''] = Finite 48 \<and>
   get_road_width [''lanes'' \<mapsto> ''2''] = Finite 20"
  by (simp add: get_building_height_def get_road_width_def parse_defs METERS_TO_FEET_def
      DEFAULT_HEIGHTS_def DEFAULT_HEIGHT_def ROAD_WIDTHS_def DEFAULT_ROAD_WIDTH_def)




section \<open>Properties of the road strip\<close>

lemma concat_pairs_length: "length (concat (map (\<lambda>i. [f i, g i]) [0 ..< n])) = 2 * n"
  by (induction n) simp_all

lemma concat_pairs_nth:
  "i < n \<Longrightarrow> concat (map (\<lambda>i. [f i, g i]) [0 ..< n]) ! (2 * i) = f i \<and>
             concat (map (\<lambda>i. [f i, g i]) [0 ..< n]) ! (2 * i + 1) = g i"
proof (induction n)
  case 0
  then show ?case by simp
next
  case (Suc n)
  show ?case
  proof (cases "i < n")
    case True
    then show ?thesis using Suc.IH
      by (simp add: nth_append concat_pairs_length)
  next
    case False
    then have "i = n" using Suc.prems by simp
    then show ?thesis
      by (simp add: nth_append concat_pairs_length)
  qed
qed

lemma sample_no_error:
  assumes "sampler_ok (Some hm)"
  shows "\<exists>r. sample hm la lo = Inr r"
proof (cases "grid hm")
  case None
  then show ?thesis by (simp add: sample_def)
next
  case (Some g)
  then have ok: "pixel_size hm \<noteq> 0" "grid_shape hm"
    using assms by (simp_all add: sampler_ok_def)
  show ?thesis
  proof (cases "0 \<le> frac_col hm lo \<and> frac_col hm lo < of_int (width hm - 1) \<and>
                0 \<le> frac_row hm la \<and> frac_row hm la < of_int (height hm - 1)")
    case True
    then show ?thesis using sample_in_bounds [OF Some ok(2) ok(1), of lo la] by simp
  next
    case False
    then show ?thesis using Some ok
      by (auto simp: sample_def frac_col_def frac_row_def Let_def not_le not_less)
  qed
qed

lemma point_3d_ok:
  assumes "sampler_ok heightmap"
  shows "\<exists>p. point_3d heightmap d olat olon n = Inr p"
proof (cases heightmap)
  case None
  then show ?thesis by (simp add: point_3d_def split: prod.splits)
next
  case (Some hm)
  then obtain r where "sample hm (lat n) (lon n) = Inr r"
    using sample_no_error assms by blast
  then show ?thesis using Some
    by (simp add: point_3d_def split: prod.splits option.splits)
qed

lemma points_3d_ok:
  assumes "sampler_ok heightmap"
  shows "\<exists>pts. points_3d heightmap d olat olon ns = Inr pts \<and> length pts = length ns"
proof (induction ns)
  case Nil
  then show ?case by simp
next
  case (Cons n ns)
  obtain p where "point_3d heightmap d olat olon n = Inr p"
    using point_3d_ok [OF assms] by blast
  then show ?case using Cons by auto
qed


lemma strip_vertices_length: "length (strip_vertices pts h) = 2 * length pts"
  by (simp add: strip_vertices_def concat_pairs_length)

lemma strip_vertices_nth:
  "i < length pts \<Longrightarrow> strip_vertices pts h ! (2 * i) = left_vertex pts h i \<and>
                        strip_vertices pts h ! (2 * i + 1) = right_vertex pts h i"
  unfolding strip_vertices_def by (rule concat_pairs_nth)

lemma strip_faces_eq:
  "strip_faces n = concat (map (\<lambda>i. [(2 * i, 2 * i + 2, 2 * i + 1), (2 * i + 1, 2 * i + 2, 2 * i + 3)]) [0 ..< n - 1])"
  by (simp add: strip_faces_def Let_def mult.commute)

lemma strip_faces_length: "length (strip_faces n) = 2 * (n - 1)"
  unfolding strip_faces_eq by (rule concat_pairs_length)

lemma strip_faces_nth:
  "i < n - 1 \<Longrightarrow> strip_faces n ! (2 * i) = (2 * i, 2 * i + 2, 2 * i + 1) \<and>
                  strip_faces n ! (2 * i + 1) = (2 * i + 1, 2 * i + 2, 2 * i + 3)"
  unfolding strip_faces_eq
  using concat_pairs_nth [of i "n - 1" "\<lambda>i. (2 * i, 2 * i + 2, 2 * i + 1)"
      "\<lambda>i. (2 * i + 1, 2 * i + 2, 2 * i + 3)"]
  by simp

lemma road_to_mesh_some:
  assumes "points_3d heightmap d olat olon nodes = Inr pts" "length pts = length nodes"
    "2 \<le> length nodes"
  shows "road_to_mesh nodes w heightmap d olat olon =
           Inr (Some \<lparr>vertices = strip_vertices pts (w / 2), faces = strip_faces (length pts)\<rparr>)"
proof -
  have "length (strip_faces (length pts)) \<noteq> 0"
    using assms(2,3) by (simp add: strip_faces_length)
  then show ?thesis using assms by (simp add: road_to_mesh_def Let_def)
qed

lemma points_3d_length:
  "points_3d heightmap d olat olon ns = Inr pts \<Longrightarrow> length pts = length ns"
  by (induction ns arbitrary: pts) (auto split: sum.splits)

lemma road_vertices:
  assumes "road_to_mesh nodes w heightmap d olat olon = Inr (Some m)"
    and "points_3d heightmap d olat olon nodes = Inr pts" and "i < length nodes"
  shows "vertices m ! (2 * i) = left_vertex pts (w / 2) i \<and>
         vertices m ! (2 * i + 1) = right_vertex pts (w / 2) i"
proof -
  have l: "length pts = length nodes" using assms(2) by (rule points_3d_length)
  have n: "2 \<le> length nodes" using assms(1) by (auto simp: road_to_mesh_def split: if_splits)
  have "m = \<lparr>vertices = strip_vertices pts (w / 2), faces = strip_faces (length pts)\<rparr>"
    using road_to_mesh_some [OF assms(2) l n, of w] assms(1) by simp
  then show ?thesis using strip_vertices_nth [of i pts "w / 2"] assms(3) l by simp
qed







lemma latlon_origin: "latlon_to_local 0 0 0 0 = (0, 0)"
  by (simp add: latlon_to_local_def)

lemma latlon_east: "latlon_to_local 0 1 0 0 = (east_x, 0)"
  by (simp add: east_x_def latlon_to_local_def)


lemma points_same: "points_3d None 0 0 0 road_same = Inr [(0, 0.1, 0), (0, 0.1, 0)]"
  by (simp add: road_same_def point_3d_def latlon_origin ROAD_SURFACE_OFFSET_def)




lemma strip_faces_2: "strip_faces (Suc (Suc 0)) = [(0, 2, 1), (1, 2, 3)]"
  by (simp add: strip_faces_def)


lemma mesh_same: "road_to_mesh road_same w None 0 0 0 =
   Inr (Some \<lparr>vertices = [Some (w / 2, 0.1, 0), Some (- (w / 2), 0.1, 0),
                          Some (w / 2, 0.1, 0), Some (- (w / 2), 0.1, 0)],
              faces = [(0, 2, 1), (1, 2, 3)]\<rparr>)"
proof -
  have "strip_vertices [(0, 0.1, 0), (0, 0.1, 0)] (w / 2) =
          [Some (w / 2, 0.1, 0), Some (- (w / 2), 0.1, 0),
           Some (w / 2, 0.1, 0), Some (- (w / 2), 0.1, 0)]"
    by (simp add: strip_vertices_def left_vertex_def right_vertex_def direction_def perp_def
        flat_length_def upt_rec [of 0] upt_rec [of 1])
  then show ?thesis
    using road_to_mesh_some [OF points_same, of w] by (simp add: road_same_def strip_faces_2)
qed


section \<open>Claims about the road strip\<close>

text \<open>
  C5, as the claim states it, fails for the mesh that the function returns: the
  constructor merges equal vertices. For the polyline of two coincident nodes and width
  10 the four vertices handed over are two equal pairs, and the returned mesh has 2
  vertices where the claim says 4.
\<close>

theorem road_to_mesh_merged_counterexample:
  "(case road_to_mesh_trimesh trimesh_process road_same 10 None 0 0 0 of
      Inr (Some m) \<Rightarrow> length (vertices m) | _ \<Rightarrow> 0) = 2 \<and>
   2 * length road_same = 4"
proof -
  have "road_to_mesh_trimesh trimesh_process road_same 10 None 0 0 0 =
          Inr (Some (trimesh_process
            [Some (5, 0.1, 0), Some (- 5, 0.1, 0), Some (5, 0.1, 0), Some (- 5, 0.1, 0)]
            [(0, 2, 1), (1, 2, 3)]))"
    using mesh_same [of 10] by (simp add: road_to_mesh_trimesh_def)
  moreover have "vertices (trimesh_process
            [Some (5, 0.1, 0), Some (- 5, 0.1, 0), Some (5, 0.1, 0), Some (- 5, 0.1, 0)]
            [(0, 2, 1), (1, 2, 3)]) = [(5, 0.1, 0), (- 5, 0.1, 0)]"
    by (simp add: trimesh_process_def)
  ultimately show ?thesis by (simp add: road_same_def)
qed

text \<open>
  C5, amended. For a polyline of \<open>N \<ge> 2\<close> points (and a sampler that raises nothing),
  \<open>road_to_mesh\<close> returns the mesh that the constructor makes of exactly \<open>2N\<close> vertices,
  the left and then the right vertex of each input point in input order, and exactly
  \<open>2(N - 1)\<close> triangles, where segment \<open>i\<close> gives \<open>(2i, 2i+2, 2i+1)\<close> and
  \<open>(2i+1, 2i+2, 2i+3)\<close>; for \<open>N < 2\<close> the result is absent. The counts are those of the
  arrays handed to the constructor, whatever the constructor does with them.
\<close>

theorem road_to_mesh_trimesh_counts:
  assumes "sampler_ok heightmap"
  shows "(length nodes < 2 \<longrightarrow>
            road_to_mesh_trimesh Trimesh nodes w heightmap d olat olon = Inr None) \<and>
         (2 \<le> length nodes \<longrightarrow>
            (\<exists>pts vs fs. points_3d heightmap d olat olon nodes = Inr pts \<and>
               vs = strip_vertices pts (w / 2) \<and> fs = strip_faces (length nodes) \<and>
               road_to_mesh_trimesh Trimesh nodes w heightmap d olat olon
                 = Inr (Some (Trimesh vs fs)) \<and>
               length vs = 2 * length nodes \<and>
               length fs = 2 * (length nodes - 1) \<and>
               (\<forall>i < length nodes.
                  vs ! (2 * i) = left_vertex pts (w / 2) i \<and>
                  vs ! (2 * i + 1) = right_vertex pts (w / 2) i) \<and>
               (\<forall>i < length nodes - 1.
                  fs ! (2 * i) = (2 * i, 2 * i + 2, 2 * i + 1) \<and>
                  fs ! (2 * i + 1) = (2 * i + 1, 2 * i + 2, 2 * i + 3))))"
proof (intro conjI impI)
  assume "length nodes < 2"
  then show "road_to_mesh_trimesh Trimesh nodes w heightmap d olat olon = Inr None"
    by (simp add: road_to_mesh_trimesh_def road_to_mesh_def)
next
  assume n: "2 \<le> length nodes"
  obtain pts where pts: "points_3d heightmap d olat olon nodes = Inr pts"
    "length pts = length nodes"
    using points_3d_ok [OF assms] by blast
  define vs where "vs = strip_vertices pts (w / 2)"
  define fs where "fs = strip_faces (length nodes)"
  have "road_to_mesh nodes w heightmap d olat olon = Inr (Some \<lparr>vertices = vs, faces = fs\<rparr>)"
    using road_to_mesh_some [OF pts n, of w] by (simp add: vs_def fs_def pts(2))
  then have r: "road_to_mesh_trimesh Trimesh nodes w heightmap d olat olon
                  = Inr (Some (Trimesh vs fs))"
    by (simp add: road_to_mesh_trimesh_def)
  have l: "length vs = 2 * length nodes" "length fs = 2 * (length nodes - 1)"
    by (simp_all add: vs_def fs_def strip_vertices_length strip_faces_length pts(2))
  have v: "\<forall>i < length nodes.
             vs ! (2 * i) = left_vertex pts (w / 2) i \<and>
             vs ! (2 * i + 1) = right_vertex pts (w / 2) i"
    using strip_vertices_nth [of _ pts "w / 2"] by (simp add: vs_def pts(2))
  have f: "\<forall>i < length nodes - 1.
             fs ! (2 * i) = (2 * i, 2 * i + 2, 2 * i + 1) \<and>
             fs ! (2 * i + 1) = (2 * i + 1, 2 * i + 2, 2 * i + 3)"
    using strip_faces_nth [of _ "length nodes"] by (simp add: fs_def)
  show "\<exists>pts vs fs. points_3d heightmap d olat olon nodes = Inr pts \<and>
               vs = strip_vertices pts (w / 2) \<and> fs = strip_faces (length nodes) \<and>
               road_to_mesh_trimesh Trimesh nodes w heightmap d olat olon
                 = Inr (Some (Trimesh vs fs)) \<and>
               length vs = 2 * length nodes \<and>
               length fs = 2 * (length nodes - 1) \<and>
               (\<forall>i < length nodes.
                  vs ! (2 * i) = left_vertex pts (w / 2) i \<and>
                  vs ! (2 * i + 1) = right_vertex pts (w / 2) i) \<and>
               (\<forall>i < length nodes - 1.
                  fs ! (2 * i) = (2 * i, 2 * i + 2, 2 * i + 1) \<and>
                  fs ! (2 * i + 1) = (2 * i + 1, 2 * i + 2, 2 * i + 3))"
    using pts(1) r l v f vs_def fs_def by blast
qed

theorem road_to_mesh_trimesh_counts_witness:
  "sampler_ok None \<and> 2 \<le> length road_east \<and>
   (\<exists>vs fs. road_to_mesh_trimesh Pair road_east 10 None 0 0 0 = Inr (Some (vs, fs)) \<and>
        length vs = 4 \<and> length fs = 2 \<and> fs ! 0 = (0, 2, 1) \<and> fs ! 1 = (1, 2, 3)) \<and>
   length [\<lparr>lat = 0, lon = 0\<rparr>] < 2 \<and>
   road_to_mesh_trimesh Pair [\<lparr>lat = 0, lon = 0\<rparr>] 10 None 0 0 0 = Inr None"
proof -
  have h: "sampler_ok None" by (simp add: sampler_ok_def)
  have l: "length road_east = 2" by (simp add: road_east_def)
  obtain vs fs where m: "road_to_mesh_trimesh Pair road_east 10 None 0 0 0 = Inr (Some (vs, fs))"
    "length vs = 2 * length road_east"
    "length fs = 2 * (length road_east - 1)"
    "\<forall>i < length road_east - 1.
       fs ! (2 * i) = (2 * i, 2 * i + 2, 2 * i + 1) \<and>
       fs ! (2 * i + 1) = (2 * i + 1, 2 * i + 2, 2 * i + 3)"
    using road_to_mesh_trimesh_counts [OF h, of road_east Pair 10 0 0 0] l by auto
  have "fs ! 0 = (0, 2, 1) \<and> fs ! 1 = (1, 2, 3)"
    using m(4) l by simp
  moreover have "road_to_mesh_trimesh Pair [\<lparr>lat = 0, lon = 0\<rparr>] 10 None 0 0 0 = Inr None"
    using road_to_mesh_trimesh_counts [OF h, of "[\<lparr>lat = 0, lon = 0\<rparr>]" Pair 10 0 0 0] by simp
  ultimately show ?thesis using h l m(1-3) by auto
qed




text \<open>
  C2, as the claim states it, fails: for a degenerate direction the code sets the
  perpendicular itself to \<open>(1, 0, 0)\<close>, so the two vertices are offset along the x axis
  (east), not along the z axis. On the road of two coincident nodes with width 10 the
  vertices lie 5 feet east and west of the point, with no offset in z.
\<close>

theorem road_degenerate_counterexample:
  "points_3d None 0 0 0 road_same = Inr [(0, 0.1, 0), (0, 0.1, 0)] \<and>
   direction [(0, 0.1, 0), (0, 0.1, 0)] 0 = Some (0, 0, 0) \<and>
   flat_length (0, 0, 0) < 0.001 \<and>
   road_to_mesh road_same 10 None 0 0 0 =
     Inr (Some \<lparr>vertices = [Some (5, 0.1, 0), Some (- 5, 0.1, 0),
                            Some (5, 0.1, 0), Some (- 5, 0.1, 0)],
                faces = [(0, 2, 1), (1, 2, 3)]\<rparr>) \<and>
   vsub (5, 0.1, 0) (0, 0.1, 0) = (5, 0, 0) \<and>
   vsub (- 5, 0.1, 0) (0, 0.1, 0) = (- 5, 0, 0)"
  using points_same mesh_same [of 10]
  by (simp add: direction_def flat_length_def)

text \<open>
  C2, amended. At every point whose flattened direction has length below 0.001 the
  perpendicular is set to east (the positive x axis), so the left vertex is the point
  moved by half the width along x and the right vertex is the point moved by half the
  width against x; y and z are those of the point.
\<close>

theorem road_degenerate_offset:
  assumes "road_to_mesh nodes w heightmap d olat olon = Inr (Some m)"
    and "points_3d heightmap d olat olon nodes = Inr pts"
    and "i < length nodes"
    and "direction pts i = Some dir" and "flat_length dir < 0.001"
  shows "vertices m ! (2 * i) = Some (vadd (pts ! i) (w / 2, 0, 0)) \<and>
         vertices m ! (2 * i + 1) = Some (vsub (pts ! i) (w / 2, 0, 0))"
  using road_vertices [OF assms(1-3)] assms(4,5)
  by (simp add: left_vertex_def right_vertex_def perp_def)


theorem road_degenerate_offset_witness:
  "\<exists>m. road_to_mesh road_same 10 None 0 0 0 = Inr (Some m) \<and>
       points_3d None 0 0 0 road_same = Inr [(0, 0.1, 0), (0, 0.1, 0)] \<and>
       (0::nat) < length road_same \<and>
       direction [(0, 0.1, 0), (0, 0.1, 0)] 0 = Some (0, 0, 0) \<and>
       flat_length (0, 0, 0) < 0.001 \<and>
       vertices m ! 0 = Some (5, 0.1, 0) \<and> vertices m ! 1 = Some (- 5, 0.1, 0)"
proof -
  obtain m where m: "road_to_mesh road_same 10 None 0 0 0 = Inr (Some m)"
    using mesh_same [of 10] by blast
  have n: "(0::nat) < length road_same" by (simp add: road_same_def)
  have d: "direction [(0, 0.1, 0), (0, 0.1, 0)] 0 = Some (0, 0, 0)"
    by (simp add: direction_def)
  have f: "flat_length (0, 0, 0) < 0.001" by (simp add: flat_length_def)
  have "vertices m ! 0 = Some (5, 0.1, 0) \<and> vertices m ! 1 = Some (- 5, 0.1, 0)"
    using road_degenerate_offset [OF m points_same n d f] by simp
  then show ?thesis using m points_same n d f by blast
qed

section \<open>Claims about the footprint builder\<close>

text \<open>
  C7. A footprint whose projected and, if needed, repaired polygon has an area below 10
  square feet is rejected: \<open>polygon_to_mesh\<close> returns absent, whatever the library's
  operations are.
\<close>

theorem polygon_to_mesh_rejects_small:
  assumes "repaired_polygon lib (map (\<lambda>n. latlon_to_local (lat n) (lon n) olat olon) nodes)
             = Some polygon"
    and "area lib polygon < 10"
  shows "polygon_to_mesh lib extrude_polygon nodes h base_elevation olat olon = None"
  using assms by (simp add: polygon_to_mesh_def Let_def)

theorem polygon_to_mesh_rejects_small_witness:
  "repaired_polygon ring_lib (map (\<lambda>n. latlon_to_local (lat n) (lon n) 0 0) sliver)
     = Some [(0, 0), (east_x, 0), (0, 0)] \<and>
   area ring_lib [(0, 0), (east_x, 0), (0, 0)] < 10 \<and>
   polygon_to_mesh ring_lib (\<lambda>g h. Some \<lparr>vertices = [], faces = []\<rparr>) sliver 10 0 0 0 = None"
proof -
  have r: "repaired_polygon ring_lib (map (\<lambda>n. latlon_to_local (lat n) (lon n) 0 0) sliver)
             = Some [(0, 0), (east_x, 0), (0, 0)]"
    by (simp add: repaired_polygon_def ring_lib_def sliver_def latlon_origin latlon_east)
  have a: "area ring_lib [(0, 0), (east_x, 0), (0, 0)] < 10"
    by (simp add: ring_lib_def ring_area_def)
  show ?thesis
    using r a polygon_to_mesh_rejects_small [OF r a] by simp
qed

end
